theory Spec2Isabelle
  imports Complex_Main "HOL-Library.Word"
begin

unbundle bit_operations_syntax

section \<open>Numbers\<close>

text \<open>
  The program computes with JavaScript numbers. A finite number is modelled as an exact
  real (no rounding error, no overflow, no negative zero); the three non-finite values
  that a division by zero produces are kept apart, so that an unguarded division in
  the source is visible in the model instead of being the HOL value \<open>x / 0 = 0\<close>.
\<close>

datatype jsnum = Fin real | PosInf | NegInf | NaN

fun js_neg :: "jsnum \<Rightarrow> jsnum" where
  "js_neg (Fin a) = Fin (- a)"
| "js_neg PosInf = NegInf"
| "js_neg NegInf = PosInf"
| "js_neg NaN = NaN"

fun js_add :: "jsnum \<Rightarrow> jsnum \<Rightarrow> jsnum" where
  "js_add (Fin a) (Fin b) = Fin (a + b)"
| "js_add NaN _ = NaN"
| "js_add _ NaN = NaN"
| "js_add PosInf NegInf = NaN"
| "js_add NegInf PosInf = NaN"
| "js_add PosInf _ = PosInf"
| "js_add NegInf _ = NegInf"
| "js_add _ PosInf = PosInf"
| "js_add _ NegInf = NegInf"

definition js_sub :: "jsnum \<Rightarrow> jsnum \<Rightarrow> jsnum" where
  "js_sub a b = js_add a (js_neg b)"

text \<open>The sign of an infinite product or quotient: \<open>True\<close> is positive.\<close>

definition js_inf :: "bool \<Rightarrow> jsnum" where
  "js_inf pos = (if pos then PosInf else NegInf)"

fun js_mul :: "jsnum \<Rightarrow> jsnum \<Rightarrow> jsnum" where
  "js_mul (Fin a) (Fin b) = Fin (a * b)"
| "js_mul NaN _ = NaN"
| "js_mul _ NaN = NaN"
| "js_mul PosInf (Fin b) = (if b = 0 then NaN else js_inf (0 < b))"
| "js_mul NegInf (Fin b) = (if b = 0 then NaN else js_inf (b < 0))"
| "js_mul (Fin a) PosInf = (if a = 0 then NaN else js_inf (0 < a))"
| "js_mul (Fin a) NegInf = (if a = 0 then NaN else js_inf (a < 0))"
| "js_mul PosInf PosInf = PosInf"
| "js_mul NegInf NegInf = PosInf"
| "js_mul PosInf NegInf = NegInf"
| "js_mul NegInf PosInf = NegInf"

fun js_div :: "jsnum \<Rightarrow> jsnum \<Rightarrow> jsnum" where
  "js_div (Fin a) (Fin b) =
     (if b \<noteq> 0 then Fin (a / b)
      else if a = 0 then NaN
      else js_inf (0 < a))"
| "js_div NaN _ = NaN"
| "js_div _ NaN = NaN"
| "js_div (Fin a) PosInf = Fin 0"
| "js_div (Fin a) NegInf = Fin 0"
| "js_div PosInf (Fin b) = js_inf (0 \<le> b)"
| "js_div NegInf (Fin b) = js_inf (b < 0)"
| "js_div PosInf PosInf = NaN"
| "js_div PosInf NegInf = NaN"
| "js_div NegInf PosInf = NaN"
| "js_div NegInf NegInf = NaN"

text \<open>Comparisons: every comparison with \<open>NaN\<close> is false.\<close>

fun js_le :: "jsnum \<Rightarrow> jsnum \<Rightarrow> bool" where
  "js_le (Fin a) (Fin b) = (a \<le> b)"
| "js_le NaN _ = False"
| "js_le _ NaN = False"
| "js_le NegInf _ = True"
| "js_le _ PosInf = True"
| "js_le PosInf _ = False"
| "js_le _ NegInf = False"

definition js_ge :: "jsnum \<Rightarrow> jsnum \<Rightarrow> bool" where
  "js_ge a b = js_le b a"

text \<open>\<open>Math.max\<close> of two arguments: \<open>NaN\<close> if either is.\<close>

fun js_max :: "jsnum \<Rightarrow> jsnum \<Rightarrow> jsnum" where
  "js_max NaN _ = NaN"
| "js_max _ NaN = NaN"
| "js_max a b = (if js_le a b then b else a)"

text \<open>\<open>Math.round\<close>: the nearest integer, a half rounded towards plus infinity.\<close>

definition math_round :: "real \<Rightarrow> real" where
  "math_round x = of_int \<lfloor>x + 1 / 2\<rfloor>"

fun js_round :: "jsnum \<Rightarrow> jsnum" where
  "js_round (Fin a) = Fin (math_round a)"
| "js_round x = x"

text \<open>Truthiness of a number, as \<open>||\<close> tests it: zero and \<open>NaN\<close> are falsy.\<close>

fun js_truthy :: "jsnum \<Rightarrow> bool" where
  "js_truthy (Fin a) = (a \<noteq> 0)"
| "js_truthy NaN = False"
| "js_truthy _ = True"


section \<open>Vehicle types\<close>

datatype VariantId = MR | LR

record NexonEVVariant =
  variant_id :: VariantId
  variant_name :: string
  fullName :: string
  batteryCapacity :: real
  officialRange :: real
  realWorldRange :: real
  motorPower :: real
  motorPowerKW :: real
  torque :: real
  topSpeed :: real
  acceleration0to100 :: real
  groundClearance :: real
  fastChargePower :: real
  acChargePower :: real
  baseConsumption :: real

record RegenLevel =
  level :: nat
  regen_name :: string
  description :: string
  recoveryEfficiency :: real

datatype HvacMode = HvacOff | Cooling | Heating

record VehicleState =
  variant :: NexonEVVariant
  currentSoC :: real
  batteryHealth :: real
  batteryTemperature :: real
  regenLevel :: RegenLevel
  hvacOn :: bool
  hvacMode :: HvacMode
  hvacTemperature :: real
  tirePressure :: real
  payload :: real
  odometer :: real
  isConnected :: bool

definition NEXON_EV_VARIANTS :: "VariantId \<Rightarrow> NexonEVVariant" where
  "NEXON_EV_VARIANTS v = (case v of
     MR \<Rightarrow> \<lparr>variant_id = MR, variant_name = ''Medium Range'',
            fullName = ''Tata Nexon EV Medium Range'', batteryCapacity = 30,
            officialRange = 275, realWorldRange = 210, motorPower = 129,
            motorPowerKW = 95, torque = 215, topSpeed = 120,
            acceleration0to100 = 94 / 10, groundClearance = 205,
            fastChargePower = 50, acChargePower = 33 / 10, baseConsumption = 130\<rparr>
   | LR \<Rightarrow> \<lparr>variant_id = LR, variant_name = ''Long Range'',
            fullName = ''Tata Nexon EV Long Range'', batteryCapacity = 45,
            officialRange = 489, realWorldRange = 320, motorPower = 144,
            motorPowerKW = 105, torque = 215, topSpeed = 150,
            acceleration0to100 = 875 / 100, groundClearance = 190,
            fastChargePower = 60, acChargePower = 72 / 10, baseConsumption = 140\<rparr>)"

definition REGEN_LEVELS :: "RegenLevel list" where
  "REGEN_LEVELS =
    [\<lparr>level = 0, regen_name = ''Off'', description = ''No regenerative braking'',
      recoveryEfficiency = 0\<rparr>,
     \<lparr>level = 1, regen_name = ''Low'', description = ''Light regeneration, coasting feel'',
      recoveryEfficiency = 1 / 10\<rparr>,
     \<lparr>level = 2, regen_name = ''Medium'', description = ''Balanced regeneration'',
      recoveryEfficiency = 18 / 100\<rparr>,
     \<lparr>level = 3, regen_name = ''High'',
      description = ''Strong regeneration, one-pedal driving'',
      recoveryEfficiency = 25 / 100\<rparr>]"

definition DEFAULT_VEHICLE_STATE :: VehicleState where
  "DEFAULT_VEHICLE_STATE =
    \<lparr>variant = NEXON_EV_VARIANTS LR, currentSoC = 80, batteryHealth = 98,
     batteryTemperature = 25, regenLevel = REGEN_LEVELS ! 2, hvacOn = False,
     hvacMode = HvacOff, hvacTemperature = 24, tirePressure = 33, payload = 75,
     odometer = 0, isConnected = False\<rparr>"

definition getAvailableEnergy :: "VehicleState \<Rightarrow> real" where
  "getAvailableEnergy state =
     (batteryCapacity (variant state) * currentSoC state * batteryHealth state) / 10000"

section \<open>Vehicle store\<close>

text \<open>
  The store holds one \<open>VehicleState\<close>; each action of \<open>useVehicleStore\<close> is a function
  from the state before the call to the state after it.
\<close>

definition setVariant :: "NexonEVVariant \<Rightarrow> VehicleState \<Rightarrow> VehicleState" where
  "setVariant v s = s\<lparr>variant := v\<rparr>"

definition setSoC :: "real \<Rightarrow> VehicleState \<Rightarrow> VehicleState" where
  "setSoC soc s = s\<lparr>currentSoC := max 0 (min 100 soc)\<rparr>"

definition setBatteryHealth :: "real \<Rightarrow> VehicleState \<Rightarrow> VehicleState" where
  "setBatteryHealth health s = s\<lparr>batteryHealth := max 0 (min 100 health)\<rparr>"

definition setBatteryTemperature :: "real \<Rightarrow> VehicleState \<Rightarrow> VehicleState" where
  "setBatteryTemperature temp s = s\<lparr>batteryTemperature := temp\<rparr>"

definition setRegenLevel :: "RegenLevel \<Rightarrow> VehicleState \<Rightarrow> VehicleState" where
  "setRegenLevel l s = s\<lparr>regenLevel := l\<rparr>"

text \<open>\<open>setHvac(on, mode = "off", temp = 24)\<close>: an omitted argument is \<open>None\<close>.\<close>

definition setHvac ::
  "bool \<Rightarrow> HvacMode option \<Rightarrow> real option \<Rightarrow> VehicleState \<Rightarrow> VehicleState" where
  "setHvac on mode temp s =
     (let m = (case mode of None \<Rightarrow> HvacOff | Some x \<Rightarrow> x);
          t = (case temp of None \<Rightarrow> 24 | Some x \<Rightarrow> x)
      in s\<lparr>hvacOn := on,
           hvacMode := (if on then (if m = HvacOff then Cooling else m) else HvacOff),
           hvacTemperature := t\<rparr>)"

definition setTirePressure :: "real \<Rightarrow> VehicleState \<Rightarrow> VehicleState" where
  "setTirePressure pressure s = s\<lparr>tirePressure := pressure\<rparr>"

definition setPayload :: "real \<Rightarrow> VehicleState \<Rightarrow> VehicleState" where
  "setPayload kg s = s\<lparr>payload := max 0 kg\<rparr>"

definition setConnected :: "bool \<Rightarrow> VehicleState \<Rightarrow> VehicleState" where
  "setConnected c s = s\<lparr>isConnected := c\<rparr>"

text \<open>\<open>Partial<VehicleState>\<close>: every field may be absent.\<close>

record PartialVehicleState =
  p_variant :: "NexonEVVariant option"
  p_currentSoC :: "real option"
  p_batteryHealth :: "real option"
  p_batteryTemperature :: "real option"
  p_regenLevel :: "RegenLevel option"
  p_hvacOn :: "bool option"
  p_hvacMode :: "HvacMode option"
  p_hvacTemperature :: "real option"
  p_tirePressure :: "real option"
  p_payload :: "real option"
  p_odometer :: "real option"
  p_isConnected :: "bool option"

definition orElse :: "'a option \<Rightarrow> 'a \<Rightarrow> 'a" where
  "orElse x d = (case x of None \<Rightarrow> d | Some v \<Rightarrow> v)"

definition updateFromOBD :: "PartialVehicleState \<Rightarrow> VehicleState \<Rightarrow> VehicleState" where
  "updateFromOBD d s =
    \<lparr>variant = orElse (p_variant d) (variant s),
     currentSoC = orElse (p_currentSoC d) (currentSoC s),
     batteryHealth = orElse (p_batteryHealth d) (batteryHealth s),
     batteryTemperature = orElse (p_batteryTemperature d) (batteryTemperature s),
     regenLevel = orElse (p_regenLevel d) (regenLevel s),
     hvacOn = orElse (p_hvacOn d) (hvacOn s),
     hvacMode = orElse (p_hvacMode d) (hvacMode s),
     hvacTemperature = orElse (p_hvacTemperature d) (hvacTemperature s),
     tirePressure = orElse (p_tirePressure d) (tirePressure s),
     payload = orElse (p_payload d) (payload s),
     odometer = orElse (p_odometer d) (odometer s),
     isConnected = orElse (p_isConnected d) (isConnected s)\<rparr>"

definition reset :: "VehicleState \<Rightarrow> VehicleState" where
  "reset s = DEFAULT_VEHICLE_STATE"


section \<open>Route types\<close>

record Coordinate =
  lat :: real
  lng :: real
  elevation :: "real option"

record Route =
  route_id :: string
  route_name :: string
  origin :: Coordinate
  destination :: Coordinate
  waypoints :: "Coordinate list"
  totalDistance :: real
  totalElevationGain :: real
  totalElevationLoss :: real
  estimatedDuration :: real

datatype WeatherType = Clear | Cloudy | Rain | Heavy_rain | Fog | Hot | Cold

record WeatherConditions =
  temperature :: real
  humidity :: real
  windSpeed :: real
  windDirection :: real
  precipitation :: real
  condition :: WeatherType

datatype TrafficDensity = Free_flow | Light | Moderate | Heavy | Congested

record TrafficConditions =
  density :: TrafficDensity
  averageSpeed :: real
  stopStartFrequency :: real

record ConsumptionBreakdown =
  bd_baseConsumption :: real
  bd_elevationCost :: real
  bd_temperatureCost :: real
  bd_speedCost :: real
  bd_trafficCost :: real
  bd_hvacCost :: real
  bd_auxiliaryCost :: real
  bd_regenRecovery :: real
  bd_totalConsumption :: real

text \<open>
  The result of a prediction. The fields \<open>route\<close>, \<open>weather\<close> and \<open>traffic\<close>, which
  are copies of the arguments, and the two display series \<open>elevationProfile\<close> and
  \<open>rangeAtPoints\<close> are left out.
\<close>

record TripPrediction =
  startSoC :: real
  predictedEndSoC :: jsnum
  predictedRange :: jsnum
  energyConsumption :: real
  consumptionPerKm :: jsnum
  canComplete :: bool
  marginOfSafety :: jsnum
  breakdown :: ConsumptionBreakdown

section \<open>Energy prediction service\<close>

definition GRAVITY :: real where
  "GRAVITY = 981 / 100"

definition NEXON_MASS_BASE :: real where
  "NEXON_MASS_BASE = 1560"

datatype TempBand = Very_cold | Cold_band | Optimal | Hot_band | Very_hot

definition TEMP_EFFICIENCY_MAP :: "TempBand \<Rightarrow> real" where
  "TEMP_EFFICIENCY_MAP b = (case b of
     Very_cold \<Rightarrow> 7 / 10 | Cold_band \<Rightarrow> 85 / 100 | Optimal \<Rightarrow> 1
   | Hot_band \<Rightarrow> 92 / 100 | Very_hot \<Rightarrow> 85 / 100)"

definition HVAC_POWER :: "HvacMode \<Rightarrow> real" where
  "HVAC_POWER m = (case m of Cooling \<Rightarrow> 25 / 10 | Heating \<Rightarrow> 4 | HvacOff \<Rightarrow> 0)"

definition TRAFFIC_CONSUMPTION_FACTOR :: "TrafficDensity \<Rightarrow> real" where
  "TRAFFIC_CONSUMPTION_FACTOR d = (case d of
     Free_flow \<Rightarrow> 1 | Light \<Rightarrow> 105 / 100 | Moderate \<Rightarrow> 112 / 100
   | Heavy \<Rightarrow> 125 / 100 | Congested \<Rightarrow> 14 / 10)"

definition getTemperatureEfficiency :: "real \<Rightarrow> real" where
  "getTemperatureEfficiency tempC =
     (if tempC < 0 then TEMP_EFFICIENCY_MAP Very_cold
      else if tempC < 15 then TEMP_EFFICIENCY_MAP Cold_band
      else if tempC \<le> 30 then TEMP_EFFICIENCY_MAP Optimal
      else if tempC \<le> 40 then TEMP_EFFICIENCY_MAP Hot_band
      else TEMP_EFFICIENCY_MAP Very_hot)"

text \<open>
  \<open>calculateElevationEnergy\<close> of the prediction service; its comments give both
  results in watt-hours.
\<close>

definition calculateElevationEnergy :: "real \<Rightarrow> real \<Rightarrow> real \<Rightarrow> real \<Rightarrow> real \<times> real" where
  "calculateElevationEnergy elevationGainM elevationLossM vehicleMassKg regenEfficiency =
     (let uphillEnergy = (vehicleMassKg * GRAVITY * elevationGainM) / 3600;
          potentialDownhillEnergy = (vehicleMassKg * GRAVITY * elevationLossM) / 3600;
          downhillRecovery = potentialDownhillEnergy * regenEfficiency
      in (uphillEnergy, downhillRecovery))"

text \<open>The argument is a quotient and may be non-finite: each test is then false or true
  as JavaScript's comparison is.\<close>

definition getSpeedConsumptionFactor :: "jsnum \<Rightarrow> real" where
  "getSpeedConsumptionFactor avgSpeedKmh =
     (if js_le avgSpeedKmh (Fin 30) then 115 / 100
      else if js_le avgSpeedKmh (Fin 50) then 1
      else if js_le avgSpeedKmh (Fin 70) then 1
      else if js_le avgSpeedKmh (Fin 90) then 112 / 100
      else if js_le avgSpeedKmh (Fin 110) then 128 / 100
      else if js_le avgSpeedKmh (Fin 130) then 145 / 100
      else 16 / 10)"

definition calculateHeadwind :: "jsnum \<Rightarrow> WeatherConditions \<Rightarrow> real" where
  "calculateHeadwind travelSpeedKmh weather = windSpeed weather * (1 / 2)"

definition predictTripEnergy ::
  "Route \<Rightarrow> VehicleState \<Rightarrow> WeatherConditions option \<Rightarrow> TrafficConditions option
     \<Rightarrow> TripPrediction" where
  "predictTripEnergy route vehicle weather traffic =
     (let distanceKm = totalDistance route;
          baseConsumptionWhKm = baseConsumption (variant vehicle);
          totalMassKg = NEXON_MASS_BASE + payload vehicle;
          durationHours = estimatedDuration route / 60;
          avgSpeedKmh =
            (case traffic of
               Some t \<Rightarrow> if js_truthy (Fin (averageSpeed t)) then Fin (averageSpeed t)
                         else js_div (Fin distanceKm) (Fin durationHours)
             | None \<Rightarrow> js_div (Fin distanceKm) (Fin durationHours));
          baseConsumptionWh = baseConsumptionWhKm * distanceKm;
          (uphillEnergy, downhillRecovery) =
            calculateElevationEnergy (totalElevationGain route) (totalElevationLoss route)
              totalMassKg (recoveryEfficiency (regenLevel vehicle));
          elevationCostWh = uphillEnergy * 1000;
          regenRecoveryWh = downhillRecovery * 1000;
          ambientTemp = (case weather of Some w \<Rightarrow> temperature w | None \<Rightarrow> 25);
          tempEfficiency = getTemperatureEfficiency ambientTemp;
          tempCostWh = baseConsumptionWh * (1 - tempEfficiency);
          speedFactor = getSpeedConsumptionFactor avgSpeedKmh;
          speedCostWh = baseConsumptionWh * (speedFactor - 1);
          trafficFactor =
            (case traffic of Some t \<Rightarrow> TRAFFIC_CONSUMPTION_FACTOR (density t) | None \<Rightarrow> 1);
          trafficCostWh = baseConsumptionWh * (trafficFactor - 1);
          hvacPowerKw = (if hvacOn vehicle then HVAC_POWER (hvacMode vehicle) else 0);
          hvacCostWh = hvacPowerKw * durationHours * 1000;
          auxiliaryCostWh = (15 / 100) * durationHours * 1000;
          headwind = (case weather of Some w \<Rightarrow> calculateHeadwind avgSpeedKmh w | None \<Rightarrow> 0);
          windAdjustmentWh =
            (if headwind > 10 then baseConsumptionWh * (8 / 100) * (headwind / 30) else 0);
          totalConsumptionWh =
            baseConsumptionWh + elevationCostWh + tempCostWh + speedCostWh + trafficCostWh
              + hvacCostWh + auxiliaryCostWh + windAdjustmentWh - regenRecoveryWh;
          totalConsumptionKwh = totalConsumptionWh / 1000;
          consumptionPerKm' = js_div (Fin totalConsumptionWh) (Fin distanceKm);
          availableEnergyKwh = getAvailableEnergy vehicle;
          energyUsedKwh = totalConsumptionKwh;
          usableBatteryKwh = batteryCapacity (variant vehicle) * (batteryHealth vehicle / 100);
          endSoCPercent =
            js_max (Fin 0)
              (js_sub (Fin (currentSoC vehicle))
                 (js_mul (js_div (Fin energyUsedKwh) (Fin usableBatteryKwh)) (Fin 100)));
          remainingEnergyKwh = availableEnergyKwh - energyUsedKwh;
          remainingRange =
            js_max (Fin 0)
              (js_div (Fin remainingEnergyKwh) (js_div consumptionPerKm' (Fin 1000)));
          canComplete' = js_ge endSoCPercent (Fin 5);
          marginOfSafety' = remainingRange
      in \<lparr>startSoC = currentSoC vehicle,
          predictedEndSoC = js_round endSoCPercent,
          predictedRange = js_round remainingRange,
          energyConsumption = totalConsumptionKwh,
          consumptionPerKm = consumptionPerKm',
          canComplete = canComplete',
          marginOfSafety = marginOfSafety',
          breakdown =
            \<lparr>bd_baseConsumption = baseConsumptionWh,
             bd_elevationCost = elevationCostWh,
             bd_temperatureCost = tempCostWh,
             bd_speedCost = speedCostWh,
             bd_trafficCost = trafficCostWh,
             bd_hvacCost = hvacCostWh,
             bd_auxiliaryCost = auxiliaryCostWh,
             bd_regenRecovery = regenRecoveryWh,
             bd_totalConsumption = totalConsumptionWh\<rparr>\<rparr>)"


section \<open>Data models of the API\<close>

subsection \<open>Geohash\<close>

definition base32 :: string where
  "base32 = ''0123456789bcdefghjkmnpqrstuvwxyz''"

text \<open>
  The local variables of \<open>calculateGeohash\<close> (\<open>bit_n\<close> is the source's \<open>bit\<close>). \<open>ch\<close> is built with \<open><<\<close> and \<open>|\<close>,
  which work on 32-bit integers.
\<close>

record GeoState =
  minLat :: real
  maxLat :: real
  minLng :: real
  maxLng :: real
  hash :: string
  bit_n :: nat
  ch :: "32 word"
  isLng :: bool

text \<open>\<open>base32[ch]\<close>: an index outside the string gives \<open>undefined\<close>, which \<open>+=\<close>
  appends as text.\<close>

definition base32_at :: "32 word \<Rightarrow> string" where
  "base32_at c = (if unat c < length base32 then [base32 ! unat c] else ''undefined'')"

text \<open>One pass through the body of the \<open>while\<close> loop.\<close>

definition geohash_step :: "real \<Rightarrow> real \<Rightarrow> GeoState \<Rightarrow> GeoState" where
  "geohash_step la lo s =
     (let s1 =
            (if isLng s then
               (let mid = (minLng s + maxLng s) / 2
                in if lo \<ge> mid then s\<lparr>ch := push_bit 1 (ch s) OR 1, minLng := mid\<rparr>
                   else s\<lparr>ch := push_bit 1 (ch s), maxLng := mid\<rparr>)
             else
               (let mid = (minLat s + maxLat s) / 2
                in if la \<ge> mid then s\<lparr>ch := push_bit 1 (ch s) OR 1, minLat := mid\<rparr>
                   else s\<lparr>ch := push_bit 1 (ch s), maxLat := mid\<rparr>));
          s2 = s1\<lparr>isLng := \<not> isLng s1, bit_n := bit_n s1 + 1\<rparr>
      in if bit_n s2 = 5 then s2\<lparr>hash := hash s2 @ base32_at (ch s2), ch := 0, bit_n := 0\<rparr>
         else s2)"

partial_function (option) geohash_loop :: "real \<Rightarrow> real \<Rightarrow> nat \<Rightarrow> GeoState \<Rightarrow> string option" where
  "geohash_loop la lo precision s =
     (if length (hash s) < precision then geohash_loop la lo precision (geohash_step la lo s)
      else Some (hash s))"

declare geohash_loop.simps [code]

definition geohash_init :: GeoState where
  "geohash_init =
     \<lparr>minLat = - 90, maxLat = 90, minLng = - 180, maxLng = 180, hash = [], bit_n = 0, ch = 0,
      isLng = True\<rparr>"

definition calculateGeohash :: "real \<Rightarrow> real \<Rightarrow> nat \<Rightarrow> string option" where
  "calculateGeohash la lo precision = geohash_loop la lo precision geohash_init"

subsection \<open>Segment hash\<close>

definition base36_digit :: "nat \<Rightarrow> char" where
  "base36_digit d = ''0123456789abcdefghijklmnopqrstuvwxyz'' ! d"

fun toString36 :: "nat \<Rightarrow> string" where
  "toString36 n = (if n < 36 then [base36_digit n]
                   else toString36 (n div 36) @ [base36_digit (n mod 36)])"

declare toString36.simps [simp del]

definition createSegmentHash :: "string \<Rightarrow> string \<Rightarrow> string" where
  "createSegmentHash fromGeohash toGeohash =
     (let combined = fromGeohash @ ''-'' @ toGeohash;
          h = fold (\<lambda>c (h :: 32 word). push_bit 5 h - h + of_nat (of_char c)) combined 0
      in toString36 (nat \<bar>sint h\<bar>))"

subsection \<open>Confidence\<close>

definition calculateConfidence :: "real \<Rightarrow> real \<Rightarrow> real" where
  "calculateConfidence sampleCount stdDeviation =
     (let sampleConfidence = 1 - exp (- sampleCount / 50);
          varianceMultiplier = max (3 / 10) (1 - stdDeviation / 100)
      in math_round (sampleConfidence * varianceMultiplier * 100) / 100)"


subsection \<open>Users, trips and crowd segments\<close>

record VehicleConfig =
  vc_variantId :: string
  vc_batteryHealth :: real
  manufacturingYear :: int
  vc_odometer :: real
  defaultRegenLevel :: int
  defaultTirePressure :: real
  defaultPayload :: real

record UserPreferences =
  units :: string
  temperatureUnit :: string
  shareAnonymousData :: bool
  offlineMapsEnabled :: bool
  preferredRegion :: string
  notificationsEnabled :: bool

record UserProfile =
  user_id :: string
  userId :: string
  vehicleConfig :: VehicleConfig
  preferences :: UserPreferences
  user_createdAt :: string
  updatedAt :: string

record TripVehicleState =
  tvs_variantId :: string
  tvs_regenLevel :: int
  tvs_hvacOn :: bool
  tvs_hvacMode :: HvacMode
  tvs_hvacTemperature :: real
  tvs_payload :: real
  tvs_tirePressure :: real
  tvs_batteryHealth :: real

datatype ApiRoadType = Highway | City | Rural

datatype TrafficLevel = Free | LightTraffic | ModerateTraffic | HeavyTraffic

record TripSegment =
  startIndex :: nat
  endIndex :: nat
  seg_geohash :: string
  seg_distance :: real
  seg_elevationChange :: real
  avgSpeed :: real
  whPerKm :: real
  seg_roadType :: ApiRoadType
  trafficLevel :: TrafficLevel

text \<open>
  A trip record. The route, weather and consumption snapshots, which the service stores
  and never reads, are left out. \<open>segments\<close> is tested for presence before it is read.
\<close>

record Trip =
  trip_id :: string
  tripId :: string
  trip_userId :: string
  startTime :: string
  endTime :: string
  trip_distance :: real
  energyUsed :: real
  trip_startSoC :: real
  trip_endSoC :: real
  vehicleState :: TripVehicleState
  segments :: "TripSegment list option"
  createdAt :: string
  synced :: bool

record VariantData =
  vd_avgWhPerKm :: real
  vd_sampleCount :: nat

record AvgCount =
  avg :: real
  count :: nat

record TemperatureRanges =
  cold :: AvgCount
  moderate :: AvgCount
  hot :: AvgCount

record RegenData =
  rd_avgWhPerKm :: real
  avgRecovery :: real
  rd_sampleCount :: nat

record AggregatedConsumption =
  avgWhPerKm :: real
  minWhPerKm :: real
  maxWhPerKm :: real
  stdDeviation :: real
  byVariant :: "string \<rightharpoonup> VariantData"
  byTemperatureRange :: TemperatureRanges
  byRegenLevel :: "int \<rightharpoonup> RegenData"

record TrafficPattern =
  dayOfWeek :: nat
  hourOfDay :: nat
  avgTrafficLevel :: real
  avgSpeedKmh :: real
  tp_sampleCount :: nat

record CrowdSegment =
  cs_id :: string
  cs_geohash :: string
  segmentHash :: string
  fromGeohash :: string
  toGeohash :: string
  cs_distance :: real
  cs_elevationChange :: real
  cs_roadType :: ApiRoadType
  aggregatedData :: AggregatedConsumption
  trafficPatterns :: "TrafficPattern list"
  sampleCount :: nat
  lastUpdated :: string
  confidence :: real

record SyncTripsRequest =
  req_userId :: string
  trips :: "Trip list"

record SyncTripsResponse =
  syncedCount :: nat
  newSegmentsCreated :: nat
  crowdUpdatesApplied :: nat
  syncTimestamp :: string

section \<open>Cosmos DB service\<close>

text \<open>
  A container maps the pair of item id and partition key to the stored document. The
  three containers are the service's state.
\<close>

type_synonym 'a container = "string \<times> string \<rightharpoonup> 'a"

text \<open>
  What \<open>item(id, partitionKey).read()\<close> gives: the stored document; no resource, for
  a pair that is not stored (the client resolves the read with \<open>resource\<close> undefined, the
  outcome that \<open>getOrCreateUser\<close> tests with \<open>if (resource)\<close>); or the error with the
  code 404, which the service's \<open>catch\<close> clauses test for and which the read of a
  container never raises. Other store failures are not modelled.
\<close>

datatype 'a ReadOutcome = Resource 'a | NoResource | NotFound404

definition readItem :: "'a container \<Rightarrow> string \<Rightarrow> string \<Rightarrow> 'a ReadOutcome" where
  "readItem container itemId partitionKey =
     (case container (itemId, partitionKey) of
        Some resource \<Rightarrow> Resource resource
      | None \<Rightarrow> NoResource)"

record Db =
  usersContainer :: "UserProfile container"
  tripsContainer :: "Trip container"
  crowdContainer :: "CrowdSegment container"

text \<open>What \<open>new Date()\<close> gives during a call: the ISO timestamp and the year.\<close>

record Clock =
  nowISO :: string
  nowYear :: int

definition getOrCreateUser :: "Clock \<Rightarrow> string \<Rightarrow> Db \<Rightarrow> UserProfile \<times> Db" where
  "getOrCreateUser clock uid db =
     (case readItem (usersContainer db) uid uid of
        Resource resource \<Rightarrow> (resource, db)
      | _ \<Rightarrow>
          (let newProfile =
             \<lparr>user_id = uid, userId = uid,
              vehicleConfig =
                \<lparr>vc_variantId = ''nexon_ev_mr'', vc_batteryHealth = 100,
                 manufacturingYear = nowYear clock, vc_odometer = 0, defaultRegenLevel = 2,
                 defaultTirePressure = 35, defaultPayload = 150\<rparr>,
              preferences =
                \<lparr>units = ''metric'', temperatureUnit = ''celsius'',
                 shareAnonymousData = True, offlineMapsEnabled = False,
                 preferredRegion = ''maharashtra'', notificationsEnabled = False\<rparr>,
              user_createdAt = nowISO clock, updatedAt = nowISO clock\<rparr>
           in (newProfile,
               db\<lparr>usersContainer := (usersContainer db)((uid, uid) \<mapsto> newProfile)\<rparr>)))"

definition saveTrip :: "Clock \<Rightarrow> Trip \<Rightarrow> Db \<Rightarrow> Trip \<times> Db" where
  "saveTrip clock trip db =
     (let tripWithMeta = trip\<lparr>createdAt := nowISO clock, synced := True\<rparr>
      in (tripWithMeta,
          db\<lparr>tripsContainer :=
               (tripsContainer db)((trip_id tripWithMeta, trip_userId tripWithMeta)
                  \<mapsto> tripWithMeta)\<rparr>))"

text \<open>A number in a template string: the decimal digits of an index.\<close>

fun numberToString :: "nat \<Rightarrow> string" where
  "numberToString n = (if n < 10 then [base36_digit n]
                       else numberToString (n div 10) @ [base36_digit (n mod 10)])"

declare numberToString.simps [simp del]

definition segmentIdOf :: "TripSegment \<Rightarrow> string" where
  "segmentIdOf segment = seg_geohash segment @ ''-'' @ numberToString (startIndex segment)"

text \<open>The branch of \<open>updateCrowdSegment\<close> taken when the read finds a document.\<close>

definition updateExisting :: "Clock \<Rightarrow> TripSegment \<Rightarrow> Trip \<Rightarrow> CrowdSegment \<Rightarrow> CrowdSegment" where
  "updateExisting clock segment trip existing =
     (let newCount = sampleCount existing + 1;
          variantId = tvs_variantId (vehicleState trip);
          ad = aggregatedData existing;
          newAvg = avgWhPerKm ad + (whPerKm segment - avgWhPerKm ad) / real newCount;
          ad1 = ad\<lparr>avgWhPerKm := math_round (newAvg * 100) / 100,
                   minWhPerKm := min (minWhPerKm ad) (whPerKm segment),
                   maxWhPerKm := max (maxWhPerKm ad) (whPerKm segment)\<rparr>;
          conf = calculateConfidence (real newCount) (stdDeviation ad1);
          ad2 =
            (case byVariant ad1 variantId of
               None \<Rightarrow>
                 ad1\<lparr>byVariant := (byVariant ad1)(variantId \<mapsto>
                        \<lparr>vd_avgWhPerKm = whPerKm segment, vd_sampleCount = 1\<rparr>)\<rparr>
             | Some variantData \<Rightarrow>
                 ad1\<lparr>byVariant := (byVariant ad1)(variantId \<mapsto>
                        \<lparr>vd_avgWhPerKm =
                           vd_avgWhPerKm variantData
                             + (whPerKm segment - vd_avgWhPerKm variantData)
                                 / real (vd_sampleCount variantData + 1),
                         vd_sampleCount = vd_sampleCount variantData + 1\<rparr>)\<rparr>)
      in existing\<lparr>aggregatedData := ad2, sampleCount := newCount,
                  lastUpdated := nowISO clock, confidence := conf\<rparr>)"

text \<open>The document that the 404 branch creates.\<close>

definition newSegmentOf :: "Clock \<Rightarrow> TripSegment \<Rightarrow> Trip \<Rightarrow> CrowdSegment" where
  "newSegmentOf clock segment trip =
     \<lparr>cs_id = segmentIdOf segment,
      cs_geohash = seg_geohash segment,
      segmentHash = createSegmentHash (seg_geohash segment) (seg_geohash segment),
      fromGeohash = seg_geohash segment,
      toGeohash = seg_geohash segment,
      cs_distance = seg_distance segment,
      cs_elevationChange = seg_elevationChange segment,
      cs_roadType = seg_roadType segment,
      aggregatedData =
        \<lparr>avgWhPerKm = whPerKm segment, minWhPerKm = whPerKm segment,
         maxWhPerKm = whPerKm segment, stdDeviation = 0,
         byVariant = [tvs_variantId (vehicleState trip) \<mapsto>
                        \<lparr>vd_avgWhPerKm = whPerKm segment, vd_sampleCount = 1\<rparr>],
         byTemperatureRange =
           \<lparr>cold = \<lparr>avg = 0, count = 0\<rparr>, moderate = \<lparr>avg = 0, count = 0\<rparr>,
            hot = \<lparr>avg = 0, count = 0\<rparr>\<rparr>,
         byRegenLevel = Map.empty\<rparr>,
      trafficPatterns = [],
      sampleCount = 1,
      lastUpdated = nowISO clock,
      confidence = 1 / 10\<rparr>"

text \<open>
  \<open>updateCrowdSegment\<close> returns the flags \<open>(created, updated)\<close> and the new state. The
  \<open>if (existing)\<close> of the source has no \<open>else\<close>: when the read gives no resource, both
  flags stay false and nothing is written. The document is created only in the \<open>catch\<close>
  clause, for an error with the code 404.
\<close>

definition updateCrowdSegment ::
  "Clock \<Rightarrow> TripSegment \<Rightarrow> Trip \<Rightarrow> Db \<Rightarrow> (bool \<times> bool) \<times> Db" where
  "updateCrowdSegment clock segment trip db =
     (let segmentId = segmentIdOf segment
      in case readItem (crowdContainer db) segmentId (seg_geohash segment) of
           Resource existing \<Rightarrow>
             (let e = updateExisting clock segment trip existing
              in ((False, True),
                  db\<lparr>crowdContainer := (crowdContainer db)((cs_id e, cs_geohash e) \<mapsto> e)\<rparr>))
         | NoResource \<Rightarrow> ((False, False), db)
         | NotFound404 \<Rightarrow>
             (let newSegment = newSegmentOf clock segment trip
              in ((True, False),
                  db\<lparr>crowdContainer :=
                       (crowdContainer db)((cs_id newSegment, cs_geohash newSegment)
                          \<mapsto> newSegment)\<rparr>)))"

text \<open>The inner loop of \<open>syncTrips\<close>, over the segments of one trip; the pair of numbers
  is \<open>(newSegmentsCreated, crowdUpdatesApplied)\<close>.\<close>

fun syncSegments ::
  "Clock \<Rightarrow> Trip \<Rightarrow> TripSegment list \<Rightarrow> (nat \<times> nat) \<times> Db \<Rightarrow> (nat \<times> nat) \<times> Db" where
  "syncSegments clock trip [] acc = acc"
| "syncSegments clock trip (segment # rest) ((nc, nu), db) =
     (let ((created, updated), db') = updateCrowdSegment clock segment trip db
      in syncSegments clock trip rest
           ((if created then nc + 1 else nc, if updated then nu + 1 else nu), db'))"

text \<open>The outer loop, over the trips of the request; the first number is \<open>syncedCount\<close>.\<close>

fun syncTripsLoop ::
  "Clock \<Rightarrow> string \<Rightarrow> Trip list \<Rightarrow> nat \<times> (nat \<times> nat) \<times> Db \<Rightarrow> nat \<times> (nat \<times> nat) \<times> Db" where
  "syncTripsLoop clock uid [] acc = acc"
| "syncTripsLoop clock uid (trip # rest) (sc, cnt, db) =
     (let (saved, db1) = saveTrip clock (trip\<lparr>trip_userId := uid\<rparr>) db;
          sc' = sc + 1;
          (user, db2) = getOrCreateUser clock uid db1;
          acc' =
            (case segments trip of
               Some segs \<Rightarrow>
                 if shareAnonymousData (preferences user)
                 then syncSegments clock trip segs (cnt, db2)
                 else (cnt, db2)
             | None \<Rightarrow> (cnt, db2))
      in syncTripsLoop clock uid rest (sc', acc'))"

definition syncTrips :: "Clock \<Rightarrow> SyncTripsRequest \<Rightarrow> Db \<Rightarrow> SyncTripsResponse \<times> Db" where
  "syncTrips clock request db =
     (let (sc, (nc, nu), db') = syncTripsLoop clock (req_userId request) (trips request) (0, (0, 0), db)
      in (\<lparr>syncedCount = sc, newSegmentsCreated = nc, crowdUpdatesApplied = nu,
           syncTimestamp = nowISO clock\<rparr>, db'))"

section \<open>Prediction endpoint\<close>

text \<open>The table \<open>REGEN_EFFICIENCY\<close> and the lookup with its \<open>|| 0.18\<close> default.\<close>

definition REGEN_EFFICIENCY :: "int \<rightharpoonup> real" where
  "REGEN_EFFICIENCY = [0 \<mapsto> 0, 1 \<mapsto> 1 / 10, 2 \<mapsto> 18 / 100, 3 \<mapsto> 25 / 100]"

definition regenEfficiencyOf :: "TripVehicleState \<Rightarrow> real" where
  "regenEfficiencyOf vs =
     (case REGEN_EFFICIENCY (tvs_regenLevel vs) of
        Some e \<Rightarrow> if e \<noteq> 0 then e else 18 / 100
      | None \<Rightarrow> 18 / 100)"

text \<open>\<open>calculateElevationEnergy\<close> of the endpoint (a second function of that name).\<close>

definition api_calculateElevationEnergy :: "real \<Rightarrow> real \<Rightarrow> real \<Rightarrow> real" where
  "api_calculateElevationEnergy elevChange distance regenEfficiency =
     (let mass = 1600;
          g = 981 / 100;
          potentialEnergy = (mass * g * elevChange) / 3600
      in if elevChange > 0 then potentialEnergy / (85 / 100)
         else potentialEnergy * regenEfficiency)"

text \<open>
  The elevation part of the endpoint's loop body, for one pair of coordinates at the
  given distance: it adds to the running \<open>(elevationImpact, regenRecovery)\<close>.
\<close>

definition elevationStep ::
  "TripVehicleState \<Rightarrow> Coordinate \<Rightarrow> Coordinate \<Rightarrow> real \<Rightarrow> real \<times> real \<Rightarrow> real \<times> real" where
  "elevationStep vs from to distance acc =
     (case (elevation from, elevation to) of
        (Some ef, Some et) \<Rightarrow>
          (let elevChange = et - ef;
               elevEnergy = api_calculateElevationEnergy elevChange distance (regenEfficiencyOf vs);
               elevationImpact = fst acc + elevEnergy
           in if elevEnergy < 0 then (elevationImpact, snd acc + \<bar>elevEnergy\<bar>)
              else (elevationImpact, snd acc))
      | _ \<Rightarrow> acc)"


section \<open>Auxiliary definitions for the statements\<close>

text \<open>
  The wind adjustment of \<open>predictTripEnergy\<close> (step 8), which enters the total but is
  not a field of the breakdown.
\<close>

definition windAdjustment :: "Route \<Rightarrow> VehicleState \<Rightarrow> WeatherConditions option \<Rightarrow> real" where
  "windAdjustment r v w =
     (case w of
        None \<Rightarrow> 0
      | Some x \<Rightarrow>
          if windSpeed x * (1 / 2) > 10
          then baseConsumption (variant v) * totalDistance r * (8 / 100)
                 * (windSpeed x * (1 / 2) / 30)
          else 0)"

text \<open>The invariant of the geohash loop: fewer than five bits are pending, \<open>ch\<close> holds
  only those bits, and every character written so far is of the alphabet.\<close>

definition geo_inv :: "GeoState \<Rightarrow> bool" where
  "geo_inv s = (bit_n s < 5 \<and> unat (ch s) < 2 ^ bit_n s \<and> set (hash s) \<subseteq> set base32)"

text \<open>Concrete inputs: routes out of Pune and a request's vehicle state.\<close>

definition pune :: Coordinate where
  "pune = \<lparr>lat = 1852 / 100, lng = 7385 / 100, elevation = None\<rparr>"

definition flatRoute :: Route where
  "flatRoute =
     \<lparr>route_id = ''flat'', route_name = ''Flat'', origin = pune, destination = pune,
      waypoints = [], totalDistance = 100, totalElevationGain = 0, totalElevationLoss = 0,
      estimatedDuration = 120\<rparr>"

definition climbRoute :: Route where
  "climbRoute = flatRoute\<lparr>totalDistance := 10, totalElevationGain := 100, estimatedDuration := 20\<rparr>"

definition descentRoute :: Route where
  "descentRoute = flatRoute\<lparr>totalDistance := 10, totalElevationLoss := 100, estimatedDuration := 20\<rparr>"

definition stationaryRoute :: Route where
  "stationaryRoute = flatRoute\<lparr>totalDistance := 0, estimatedDuration := 20\<rparr>"

definition obdReading :: PartialVehicleState where
  "obdReading =
     \<lparr>p_variant = None, p_currentSoC = Some 150, p_batteryHealth = None,
      p_batteryTemperature = None, p_regenLevel = None, p_hvacOn = None, p_hvacMode = None,
      p_hvacTemperature = None, p_tirePressure = None, p_payload = None, p_odometer = None,
      p_isConnected = Some True\<rparr>"

definition regenOffRequest :: TripVehicleState where
  "regenOffRequest =
     \<lparr>tvs_variantId = ''nexon_ev_mr'', tvs_regenLevel = 0, tvs_hvacOn = False,
      tvs_hvacMode = HvacOff, tvs_hvacTemperature = 24, tvs_payload = 150,
      tvs_tirePressure = 35, tvs_batteryHealth = 100\<rparr>"

text \<open>
  A sequence of ingests: \<open>updateCrowdSegment\<close> called once for each sample, in order,
  each with its own time, trip segment and trip.
\<close>

fun ingest :: "(Clock \<times> TripSegment \<times> Trip) list \<Rightarrow> Db \<Rightarrow> Db" where
  "ingest [] db = db"
| "ingest ((clock, segment, trip) # rest) db =
     ingest rest (snd (updateCrowdSegment clock segment trip db))"

definition observed :: "(Clock \<times> TripSegment \<times> Trip) list \<Rightarrow> real list" where
  "observed samples = map (\<lambda>(clock, segment, trip). whPerKm segment) samples"

text \<open>Whether the user of a request shares data: the stored preference, or the default
  of the profile that \<open>getOrCreateUser\<close> creates.\<close>

definition sharesOf :: "string \<Rightarrow> Db \<Rightarrow> bool" where
  "sharesOf uid db =
     (case usersContainer db (uid, uid) of
        Some u \<Rightarrow> shareAnonymousData (preferences u)
      | None \<Rightarrow> True)"

text \<open>The key under which \<open>updateCrowdSegment\<close> reads the record of a trip segment, and
  the segments of a batch of trips in the order in which \<open>syncTrips\<close> meets them.\<close>

definition segKey :: "TripSegment \<Rightarrow> string \<times> string" where
  "segKey segment = (segmentIdOf segment, seg_geohash segment)"

definition allSegments :: "Trip list \<Rightarrow> TripSegment list" where
  "allSegments ts = concat (map (\<lambda>t. case segments t of Some segs \<Rightarrow> segs | None \<Rightarrow> []) ts)"

text \<open>A crowd container stores every document under the document's own id and
  partition key.\<close>

definition wfCrowd :: "Db \<Rightarrow> bool" where
  "wfCrowd db = (\<forall>k e. crowdContainer db k = Some e \<longrightarrow> k = (cs_id e, cs_geohash e))"

text \<open>Concrete inputs: an empty database, a time, and trips through the cell \<open>tek927\<close>.\<close>

definition emptyDb :: Db where
  "emptyDb = \<lparr>usersContainer = Map.empty, tripsContainer = Map.empty,
              crowdContainer = Map.empty\<rparr>"

definition noon :: Clock where
  "noon = \<lparr>nowISO = ''2026-01-01T12:00:00.000Z'', nowYear = 2026\<rparr>"

definition cellSegment :: "nat \<Rightarrow> real \<Rightarrow> TripSegment" where
  "cellSegment i x =
     \<lparr>startIndex = i, endIndex = i + 1, seg_geohash = ''tek927'', seg_distance = 1,
      seg_elevationChange = 0, avgSpeed = 40, whPerKm = x, seg_roadType = City,
      trafficLevel = LightTraffic\<rparr>"

definition tripOf :: "TripSegment list \<Rightarrow> Trip" where
  "tripOf segs =
     \<lparr>trip_id = ''trip-1'', tripId = ''trip-1'', trip_userId = ''u1'',
      startTime = ''2026-01-01T10:00:00.000Z'', endTime = ''2026-01-01T11:00:00.000Z'',
      trip_distance = 1, energyUsed = 15 / 100, trip_startSoC = 80, trip_endSoC = 79,
      vehicleState = regenOffRequest, segments = Some segs, createdAt = [], synced = False\<rparr>"

definition oneTripRequest :: SyncTripsRequest where
  "oneTripRequest = \<lparr>req_userId = ''u1'', trips = [tripOf [cellSegment 0 150]]\<rparr>"

definition twoSamples :: "(Clock \<times> TripSegment \<times> Trip) list" where
  "twoSamples = [(noon, cellSegment 0 150, tripOf []), (noon, cellSegment 0 151, tripOf [])]"

text \<open>A database whose crowd container holds one record of the cell, with one sample
  of 150 Wh/km at the start index 0.\<close>

definition seededDb :: Db where
  "seededDb =
     emptyDb\<lparr>crowdContainer :=
       [(''tek927-0'', ''tek927'') \<mapsto> newSegmentOf noon (cellSegment 0 150) (tripOf [])]\<rparr>"

text \<open>What a crowd container holds under a key: the average and the sample count.\<close>

definition storedAvg :: "Db \<Rightarrow> string \<times> string \<Rightarrow> real option" where
  "storedAvg db k = map_option (\<lambda>e. avgWhPerKm (aggregatedData e)) (crowdContainer db k)"

definition storedCount :: "Db \<Rightarrow> string \<times> string \<Rightarrow> nat option" where
  "storedCount db k = map_option sampleCount (crowdContainer db k)"

section \<open>Rounding\<close>

lemma math_round_ge0: "0 \<le> x \<Longrightarrow> 0 \<le> math_round x"
  by (simp add: math_round_def)

lemma math_round_le: "x \<le> of_int k \<Longrightarrow> math_round x \<le> of_int k"
  unfolding math_round_def by (simp add: floor_le_iff)

lemma math_round_mono: "x \<le> y \<Longrightarrow> math_round x \<le> math_round y"
  unfolding math_round_def by (simp add: floor_mono)

lemma math_round_close: "\<bar>math_round x - x\<bar> \<le> 1 / 2"
  unfolding math_round_def by linarith

section \<open>The vehicle store's setters\<close>

text \<open>
  C10, as the claim states it, fails: tire pressure and battery temperature are stored
  as given. A tire pressure of -5 PSI and a battery temperature of -1000 degrees Celsius
  go into the state unchanged, and \<open>updateFromOBD\<close> writes a state of charge of 150.
\<close>

theorem setters_unclamped_counterexample:
  "tirePressure (setTirePressure (- 5) DEFAULT_VEHICLE_STATE) = - 5
   \<and> batteryTemperature (setBatteryTemperature (- 1000) DEFAULT_VEHICLE_STATE) = - 1000
   \<and> currentSoC (updateFromOBD obdReading DEFAULT_VEHICLE_STATE) = 150"
  by (simp add: setTirePressure_def setBatteryTemperature_def updateFromOBD_def obdReading_def
      orElse_def)

text \<open>
  C10, amended: after \<open>setSoC\<close> the state of charge lies in [0, 100], after
  \<open>setBatteryHealth\<close> the battery health lies in [0, 100], after \<open>setPayload\<close> the payload
  is non-negative; \<open>setTirePressure\<close> and \<open>setBatteryTemperature\<close> store their argument
  as it is, and \<open>updateFromOBD\<close> stores the state of charge it is given, if any.
\<close>

theorem setters_clamp_soc_health_payload:
  "0 \<le> currentSoC (setSoC soc s) \<and> currentSoC (setSoC soc s) \<le> 100
   \<and> 0 \<le> batteryHealth (setBatteryHealth h s) \<and> batteryHealth (setBatteryHealth h s) \<le> 100
   \<and> 0 \<le> payload (setPayload kg s)
   \<and> tirePressure (setTirePressure p s) = p
   \<and> batteryTemperature (setBatteryTemperature temp s) = temp
   \<and> currentSoC (updateFromOBD d s) = orElse (p_currentSoC d) (currentSoC s)"
  by (simp add: setSoC_def setBatteryHealth_def setPayload_def setTirePressure_def
      setBatteryTemperature_def updateFromOBD_def)

section \<open>Trip prediction\<close>

lemmas predict_defs =
  predictTripEnergy_def calculateElevationEnergy_def DEFAULT_VEHICLE_STATE_def GRAVITY_def
  NEXON_MASS_BASE_def Let_def NEXON_EV_VARIANTS_def REGEN_LEVELS_def getTemperatureEfficiency_def
  TEMP_EFFICIENCY_MAP_def getSpeedConsumptionFactor_def HVAC_POWER_def
  TRAFFIC_CONSUMPTION_FACTOR_def calculateHeadwind_def getAvailableEnergy_def js_sub_def
  js_ge_def js_inf_def math_round_def

lemmas route_defs = flatRoute_def climbRoute_def descentRoute_def stationaryRoute_def pune_def

lemma endSoC_eq:
  "predictedEndSoC (predictTripEnergy r v w t) =
     js_round (js_max (Fin 0) (js_sub (Fin (currentSoC v))
       (js_mul (js_div (Fin (bd_totalConsumption (breakdown (predictTripEnergy r v w t)) / 1000))
                  (Fin (batteryCapacity (variant v) * (batteryHealth v / 100)))) (Fin 100))))"
  by (simp add: predictTripEnergy_def Let_def split: prod.splits
      del: js_div.simps js_mul.simps js_max.simps js_add.simps js_round.simps)

lemma perKm_eq:
  "consumptionPerKm (predictTripEnergy r v w t) =
     js_div (Fin (bd_totalConsumption (breakdown (predictTripEnergy r v w t))))
       (Fin (totalDistance r))"
  by (simp add: predictTripEnergy_def Let_def split: prod.splits del: js_div.simps)

lemma total_eq:
  "bd_totalConsumption (breakdown (predictTripEnergy r v w t)) =
     bd_baseConsumption (breakdown (predictTripEnergy r v w t))
   + bd_elevationCost (breakdown (predictTripEnergy r v w t))
   + bd_temperatureCost (breakdown (predictTripEnergy r v w t))
   + bd_speedCost (breakdown (predictTripEnergy r v w t))
   + bd_trafficCost (breakdown (predictTripEnergy r v w t))
   + bd_hvacCost (breakdown (predictTripEnergy r v w t))
   + bd_auxiliaryCost (breakdown (predictTripEnergy r v w t))
   + windAdjustment r v w
   - bd_regenRecovery (breakdown (predictTripEnergy r v w t))"
  by (simp add: predictTripEnergy_def Let_def windAdjustment_def calculateHeadwind_def
      split: prod.splits option.splits)

lemma wind_nonneg:
  "0 \<le> baseConsumption (variant v) \<Longrightarrow> 0 \<le> totalDistance r \<Longrightarrow> 0 \<le> windAdjustment r v w"
  by (auto simp: windAdjustment_def split: option.splits)

lemma elevationCost_eq:
  "bd_elevationCost (breakdown (predictTripEnergy r v w t)) =
     (NEXON_MASS_BASE + payload v) * GRAVITY * totalElevationGain r / 3600 * 1000"
  by (simp add: predictTripEnergy_def calculateElevationEnergy_def Let_def)

lemma regenRecovery_eq:
  "bd_regenRecovery (breakdown (predictTripEnergy r v w t)) =
     (NEXON_MASS_BASE + payload v) * GRAVITY * totalElevationLoss r / 3600
       * recoveryEfficiency (regenLevel v) * 1000"
  by (simp add: predictTripEnergy_def calculateElevationEnergy_def Let_def)

text \<open>
  C3: on a route that climbs 100 m, with the default vehicle (payload 75 kg, so a mass of
  1635 kg), the claim's elevation cost is 1635 * 9.81 * 100 / 3600 = 445.5375 Wh. The
  breakdown reports a thousand times that, 445537.5 Wh, and the same factor is on the
  regen recovery of a route that descends 100 m (regen level 2, efficiency 0.18:
  80.19675 Wh by the claim, 80196.75 Wh in the breakdown).
\<close>

theorem elevation_cost_thousandfold:
  "(NEXON_MASS_BASE + payload DEFAULT_VEHICLE_STATE) * GRAVITY * totalElevationGain climbRoute / 3600
     = 4455375 / 10000
   \<and> bd_elevationCost (breakdown (predictTripEnergy climbRoute DEFAULT_VEHICLE_STATE None None))
     = 4455375 / 10
   \<and> (NEXON_MASS_BASE + payload DEFAULT_VEHICLE_STATE) * GRAVITY * totalElevationLoss descentRoute
       / 3600 * recoveryEfficiency (regenLevel DEFAULT_VEHICLE_STATE)
     = 8019675 / 100000
   \<and> bd_regenRecovery (breakdown (predictTripEnergy descentRoute DEFAULT_VEHICLE_STATE None None))
     = 8019675 / 100"
  by (simp add: elevationCost_eq regenRecovery_eq route_defs DEFAULT_VEHICLE_STATE_def
      REGEN_LEVELS_def GRAVITY_def NEXON_MASS_BASE_def)


text \<open>
  C4, as the claim states it, fails: on a route of 10 km that descends 100 m (default
  vehicle, regen level 2) the regen recovery exceeds all costs, the total consumption is
  -78536.75 Wh and the predicted end state of charge is 258 percent.
\<close>

theorem total_negative_soc_above_100_counterexample:
  "bd_totalConsumption (breakdown (predictTripEnergy descentRoute DEFAULT_VEHICLE_STATE None None))
     = - (314147 / 4)
   \<and> predictedEndSoC (predictTripEnergy descentRoute DEFAULT_VEHICLE_STATE None None) = Fin 258"
  by (simp add: predict_defs route_defs)

text \<open>
  C4, amended: with a positive battery capacity and battery health the predicted end
  state of charge is a number and never below 0. The total consumption is not clamped:
  it is non-negative, and the predicted end state of charge at most 100, when base
  consumption and distance are non-negative, the start state of charge is at most 100
  and the regen recovery does not exceed the sum of the costs of the breakdown.
\<close>

theorem end_soc_nonneg_and_bounded:
  assumes cap: "0 < batteryCapacity (variant v)" and health: "0 < batteryHealth v"
  shows "\<exists>x. predictedEndSoC (predictTripEnergy r v w t) = Fin x \<and> 0 \<le> x \<and>
     (0 \<le> baseConsumption (variant v) \<and> 0 \<le> totalDistance r \<and> currentSoC v \<le> 100 \<and>
      bd_regenRecovery (breakdown (predictTripEnergy r v w t))
        \<le> bd_baseConsumption (breakdown (predictTripEnergy r v w t))
          + bd_elevationCost (breakdown (predictTripEnergy r v w t))
          + bd_temperatureCost (breakdown (predictTripEnergy r v w t))
          + bd_speedCost (breakdown (predictTripEnergy r v w t))
          + bd_trafficCost (breakdown (predictTripEnergy r v w t))
          + bd_hvacCost (breakdown (predictTripEnergy r v w t))
          + bd_auxiliaryCost (breakdown (predictTripEnergy r v w t))
      \<longrightarrow> 0 \<le> bd_totalConsumption (breakdown (predictTripEnergy r v w t)) \<and> x \<le> 100)"
proof -
  let ?p = "predictTripEnergy r v w t"
  let ?T = "bd_totalConsumption (breakdown ?p)"
  let ?U = "batteryCapacity (variant v) * (batteryHealth v / 100)"
  let ?y = "currentSoC v - ?T / 1000 / ?U * 100"
  have U: "0 < ?U" using cap health by simp
  have e: "predictedEndSoC ?p = Fin (math_round (max 0 ?y))"
    using cap health by (simp add: endSoC_eq [of r v w t] js_sub_def max_def)
  have lo: "0 \<le> math_round (max 0 ?y)" by (rule math_round_ge0) simp
  have hi: "0 \<le> ?T \<and> math_round (max 0 ?y) \<le> 100"
    if h: "0 \<le> baseConsumption (variant v)" "0 \<le> totalDistance r" "currentSoC v \<le> 100"
      "bd_regenRecovery (breakdown ?p)
        \<le> bd_baseConsumption (breakdown ?p) + bd_elevationCost (breakdown ?p)
          + bd_temperatureCost (breakdown ?p) + bd_speedCost (breakdown ?p)
          + bd_trafficCost (breakdown ?p) + bd_hvacCost (breakdown ?p)
          + bd_auxiliaryCost (breakdown ?p)"
  proof -
    have T: "0 \<le> ?T"
      using total_eq [of r v w t] wind_nonneg [OF h(1) h(2), of w] h(4) by linarith
    have "0 \<le> ?T / 1000 / ?U * 100"
      by (intro mult_nonneg_nonneg divide_nonneg_nonneg T less_imp_le [OF U]) simp_all
    then have "max 0 ?y \<le> of_int 100" using h(3) by simp
    then have "math_round (max 0 ?y) \<le> of_int 100" by (rule math_round_le)
    with T show ?thesis by simp
  qed
  show ?thesis using e lo hi by blast
qed

theorem end_soc_nonneg_and_bounded_witness:
  "0 < batteryCapacity (variant DEFAULT_VEHICLE_STATE) \<and> 0 < batteryHealth DEFAULT_VEHICLE_STATE
   \<and> 0 \<le> baseConsumption (variant DEFAULT_VEHICLE_STATE) \<and> 0 \<le> totalDistance flatRoute
   \<and> currentSoC DEFAULT_VEHICLE_STATE \<le> 100
   \<and> bd_regenRecovery (breakdown (predictTripEnergy flatRoute DEFAULT_VEHICLE_STATE None None)) = 0
   \<and> bd_totalConsumption (breakdown (predictTripEnergy flatRoute DEFAULT_VEHICLE_STATE None None))
       = 14300
   \<and> predictedEndSoC (predictTripEnergy flatRoute DEFAULT_VEHICLE_STATE None None) = Fin 48"
  using end_soc_nonneg_and_bounded [of DEFAULT_VEHICLE_STATE flatRoute None None]
  by (simp add: predict_defs route_defs)

text \<open>
  C5, as the claim states it, fails: on a route of distance zero that lasts 20 minutes
  the auxiliary draw gives a total consumption of 50 Wh, and the division by the
  distance is not guarded: the consumption per kilometre is infinite.
\<close>

theorem zero_distance_counterexample:
  "totalDistance stationaryRoute = 0
   \<and> bd_totalConsumption
       (breakdown (predictTripEnergy stationaryRoute DEFAULT_VEHICLE_STATE None None)) = 50
   \<and> consumptionPerKm (predictTripEnergy stationaryRoute DEFAULT_VEHICLE_STATE None None) = PosInf"
  by (simp add: predict_defs route_defs)

text \<open>
  C5, amended: on a route of distance zero the costs proportional to the distance (base,
  temperature, speed, traffic) are zero and the total consumption is elevation cost plus
  HVAC cost plus auxiliary cost minus regen recovery. The division by the distance is not
  guarded and raises nothing: the consumption per kilometre is NaN when that total is
  zero and an infinity of its sign otherwise.
\<close>

theorem zero_distance_prediction:
  assumes "totalDistance r = 0"
  shows "bd_baseConsumption (breakdown (predictTripEnergy r v w t)) = 0
    \<and> bd_temperatureCost (breakdown (predictTripEnergy r v w t)) = 0
    \<and> bd_speedCost (breakdown (predictTripEnergy r v w t)) = 0
    \<and> bd_trafficCost (breakdown (predictTripEnergy r v w t)) = 0
    \<and> bd_totalConsumption (breakdown (predictTripEnergy r v w t))
        = bd_elevationCost (breakdown (predictTripEnergy r v w t))
        + bd_hvacCost (breakdown (predictTripEnergy r v w t))
        + bd_auxiliaryCost (breakdown (predictTripEnergy r v w t))
        - bd_regenRecovery (breakdown (predictTripEnergy r v w t))
    \<and> consumptionPerKm (predictTripEnergy r v w t)
        = (if bd_totalConsumption (breakdown (predictTripEnergy r v w t)) = 0 then NaN
           else if 0 < bd_totalConsumption (breakdown (predictTripEnergy r v w t)) then PosInf
           else NegInf)"
proof -
  have z: "bd_baseConsumption (breakdown (predictTripEnergy r v w t)) = 0
    \<and> bd_temperatureCost (breakdown (predictTripEnergy r v w t)) = 0
    \<and> bd_speedCost (breakdown (predictTripEnergy r v w t)) = 0
    \<and> bd_trafficCost (breakdown (predictTripEnergy r v w t)) = 0"
    using assms by (simp add: predictTripEnergy_def Let_def split: prod.splits)
  have w0: "windAdjustment r v w = 0"
    using assms by (simp add: windAdjustment_def split: option.splits)
  have t: "bd_totalConsumption (breakdown (predictTripEnergy r v w t))
        = bd_elevationCost (breakdown (predictTripEnergy r v w t))
        + bd_hvacCost (breakdown (predictTripEnergy r v w t))
        + bd_auxiliaryCost (breakdown (predictTripEnergy r v w t))
        - bd_regenRecovery (breakdown (predictTripEnergy r v w t))"
    using total_eq [of r v w t] z w0 by simp
  have k: "consumptionPerKm (predictTripEnergy r v w t)
        = (if bd_totalConsumption (breakdown (predictTripEnergy r v w t)) = 0 then NaN
           else if 0 < bd_totalConsumption (breakdown (predictTripEnergy r v w t)) then PosInf
           else NegInf)"
    using assms by (simp add: perKm_eq [of r v w t] js_inf_def)
  from z t k show ?thesis by blast
qed

theorem zero_distance_prediction_witness:
  "totalDistance stationaryRoute = 0
   \<and> bd_baseConsumption
       (breakdown (predictTripEnergy stationaryRoute DEFAULT_VEHICLE_STATE None None)) = 0
   \<and> bd_auxiliaryCost
       (breakdown (predictTripEnergy stationaryRoute DEFAULT_VEHICLE_STATE None None)) = 50
   \<and> consumptionPerKm (predictTripEnergy stationaryRoute DEFAULT_VEHICLE_STATE None None)
       = (if bd_totalConsumption
               (breakdown (predictTripEnergy stationaryRoute DEFAULT_VEHICLE_STATE None None)) = 0
          then NaN
          else if 0 < bd_totalConsumption
               (breakdown (predictTripEnergy stationaryRoute DEFAULT_VEHICLE_STATE None None))
          then PosInf else NegInf)"
proof -
  have d: "totalDistance stationaryRoute = 0" by (simp add: route_defs)
  have a: "bd_auxiliaryCost
       (breakdown (predictTripEnergy stationaryRoute DEFAULT_VEHICLE_STATE None None)) = 50"
    by (simp add: predict_defs route_defs)
  show ?thesis
    using d a zero_distance_prediction [OF d, of DEFAULT_VEHICLE_STATE None None] by simp
qed

section \<open>Regen efficiency of a prediction request\<close>

text \<open>
  C7: for a request with regen level 0 the table gives 0, which the \<open>||\<close> of the lookup
  takes for a missing entry: the efficiency applied is 0.18. On a segment that descends
  100 m the endpoint then books 78.48 Wh of regen recovery where level 0 recovers
  nothing.
\<close>

theorem regen_level_zero_gets_default:
  "tvs_regenLevel regenOffRequest = 0
   \<and> REGEN_EFFICIENCY 0 = Some 0
   \<and> regenEfficiencyOf regenOffRequest = 18 / 100
   \<and> elevationStep regenOffRequest (pune\<lparr>elevation := Some 100\<rparr>) (pune\<lparr>elevation := Some 0\<rparr>)
        5 (0, 0) = (- (1962 / 25), 1962 / 25)"
  by (simp add: regenEfficiencyOf_def REGEN_EFFICIENCY_def elevationStep_def
      api_calculateElevationEnergy_def Let_def regenOffRequest_def pune_def)


section \<open>Geohash\<close>

text \<open>The model computes the published geohash \<open>u4pruydqqvj\<close> of a reference point,
  here to three characters.\<close>

lemma geohash_reference_point:
  "calculateGeohash (5764911 / 100000) (1040744 / 100000) 3 = Some ''u4p''"
  by code_simp

lemma shift_or_one: "push_bit 1 c OR 1 = 2 * c + (1 :: 32 word)"
  by (simp add: push_bit_eq_mult or_one_eq)

lemma unat_shift:
  fixes c :: "32 word"
  assumes "unat c < 2 ^ b" "b < 5"
  shows "unat (push_bit 1 c OR 1) < 2 ^ Suc b" "unat (push_bit 1 c) < 2 ^ Suc b"
proof -
  have "(2::nat) ^ b \<le> 2 ^ 4" using assms(2) by (intro power_increasing) simp_all
  then have c16: "unat c < 16" using assms(1) by simp
  have u1: "unat (2 * c + 1) = 2 * unat c + 1"
    using c16 by (simp add: unat_word_ariths)
  have u2: "unat (2 * c) = 2 * unat c"
    using c16 by (simp add: unat_word_ariths)
  show "unat (push_bit 1 c OR 1) < 2 ^ Suc b"
    unfolding shift_or_one u1 using assms(1) by simp
  have sh: "push_bit 1 c = 2 * c" by (simp add: push_bit_eq_mult)
  show "unat (push_bit 1 c) < 2 ^ Suc b"
    unfolding sh u2 using assms(1) by simp
qed

lemma base32_at_ok: "unat c < 32 \<Longrightarrow> length (base32_at c) = 1 \<and> set (base32_at c) \<subseteq> set base32"
proof -
  assume h: "unat c < 32"
  have l: "length base32 = 32" by (simp add: base32_def)
  then have "base32 ! unat c \<in> set base32" using h by (intro nth_mem) simp
  then show ?thesis using h l by (simp add: base32_at_def)
qed

lemma geohash_step_inv:
  assumes "geo_inv s"
  shows "geo_inv (geohash_step la lo s)"
    and "bit_n s = 4 \<Longrightarrow> length (hash (geohash_step la lo s)) = length (hash s) + 1
           \<and> bit_n (geohash_step la lo s) = 0"
    and "bit_n s \<noteq> 4 \<Longrightarrow> hash (geohash_step la lo s) = hash s
           \<and> bit_n (geohash_step la lo s) = bit_n s + 1"
proof -
  from assms have b: "bit_n s < 5" and c: "unat (ch s) < 2 ^ bit_n s"
    and h: "set (hash s) \<subseteq> set base32" by (simp_all add: geo_inv_def)
  note sh = unat_shift [OF c b]
  show "bit_n s \<noteq> 4 \<Longrightarrow> hash (geohash_step la lo s) = hash s
           \<and> bit_n (geohash_step la lo s) = bit_n s + 1"
    by (simp add: geohash_step_def Let_def)
  show "bit_n s = 4 \<Longrightarrow> length (hash (geohash_step la lo s)) = length (hash s) + 1
           \<and> bit_n (geohash_step la lo s) = 0"
    using sh base32_at_ok by (simp add: geohash_step_def Let_def)
  show "geo_inv (geohash_step la lo s)"
  proof (cases "bit_n s = 4")
    case True
    then show ?thesis
      using sh base32_at_ok h by (simp add: geohash_step_def Let_def geo_inv_def)
  next
    case False
    then show ?thesis
      using sh b h by (simp add: geohash_step_def Let_def geo_inv_def)
  qed
qed

lemma geohash_loop_total:
  "geo_inv s \<Longrightarrow> length (hash s) \<le> p \<Longrightarrow>
     \<exists>h. geohash_loop la lo p s = Some h \<and> length h = p \<and> set h \<subseteq> set base32"
proof (induction "5 * (p - length (hash s)) - bit_n s" arbitrary: s rule: less_induct)
  case less
  show ?case
  proof (cases "length (hash s) < p")
    case False
    with less.prems show ?thesis
      by (subst geohash_loop.simps) (simp add: geo_inv_def)
  next
    case True
    let ?s = "geohash_step la lo s"
    note st = geohash_step_inv [OF less.prems(1), of la lo]
    have b: "bit_n s < 5" using less.prems(1) by (simp add: geo_inv_def)
    have len: "length (hash ?s) \<le> p" using st(2,3) True by (cases "bit_n s = 4") simp_all
    have dec: "5 * (p - length (hash ?s)) - bit_n ?s < 5 * (p - length (hash s)) - bit_n s"
      using st(2,3) True b by (cases "bit_n s = 4") simp_all
    from less.hyps [OF dec st(1) len]
    show ?thesis using True by (subst geohash_loop.simps) simp
  qed
qed

text \<open>
  C9: for a latitude in [-90, 90], a longitude in [-180, 180] and a positive precision
  \<open>p\<close>, \<open>calculateGeohash\<close> returns (the loop ends) a string of length exactly \<open>p\<close>
  whose characters are all of the 32-character alphabet, and equal inputs give that same
  string.
\<close>

theorem geohash_length_alphabet_deterministic:
  assumes "- 90 \<le> la" "la \<le> 90" "- 180 \<le> lo" "lo \<le> 180" "0 < p"
  shows "\<exists>h. calculateGeohash la lo p = Some h \<and> length h = p \<and> set h \<subseteq> set base32
     \<and> (\<forall>la' lo' p'. la' = la \<and> lo' = lo \<and> p' = p \<longrightarrow> calculateGeohash la' lo' p' = Some h)"
proof -
  have "geo_inv geohash_init" by (simp add: geo_inv_def geohash_init_def)
  moreover have "length (hash geohash_init) \<le> p" by (simp add: geohash_init_def)
  ultimately obtain h where "geohash_loop la lo p geohash_init = Some h" "length h = p"
    "set h \<subseteq> set base32" using geohash_loop_total by blast
  then show ?thesis by (simp add: calculateGeohash_def)
qed

theorem geohash_length_alphabet_deterministic_witness:
  "- 90 \<le> lat pune \<and> lat pune \<le> 90 \<and> - 180 \<le> lng pune \<and> lng pune \<le> 180 \<and> (0::nat) < 6
   \<and> (\<exists>h. calculateGeohash (lat pune) (lng pune) 6 = Some h \<and> length h = 6
          \<and> set h \<subseteq> set base32)"
proof -
  have h: "- 90 \<le> lat pune" "lat pune \<le> 90" "- 180 \<le> lng pune" "lng pune \<le> 180" "(0::nat) < 6"
    by (simp_all add: pune_def)
  from geohash_length_alphabet_deterministic [OF h] h show ?thesis by blast
qed

section \<open>Confidence\<close>

lemma exp_m20: "exp (- 20 :: real) \<le> 1 / 200"
proof -
  have "(6::real) \<le> exp 5" using exp_ge_add_one_self [of "5::real"] by simp
  then have "(6::real) ^ 4 \<le> exp 5 ^ 4" by (intro power_mono) simp_all
  moreover have "exp (5::real) ^ 4 = exp 20" using exp_of_nat_mult [of 4 "5::real"] by simp
  ultimately have "(200::real) \<le> exp 20" by simp
  then have "1 / exp (20::real) \<le> 1 / 200" by (intro divide_left_mono) simp_all
  then show ?thesis by (simp add: exp_minus inverse_eq_divide)
qed

lemma exp_m20_tight: "exp (- 20 :: real) \<le> 1 / 1000"
proof -
  have "(6::real) \<le> exp 5" using exp_ge_add_one_self [of "5::real"] by simp
  then have "(6::real) ^ 4 \<le> exp 5 ^ 4" by (intro power_mono) simp_all
  moreover have "exp (5::real) ^ 4 = exp 20" using exp_of_nat_mult [of 4 "5::real"] by simp
  ultimately have "(1000::real) \<le> exp 20" by simp
  then have "1 / exp (20::real) \<le> 1 / 1000" by (intro divide_left_mono) simp_all
  then show ?thesis by (simp add: exp_minus inverse_eq_divide)
qed

text \<open>
  C8, as the claim states it, fails: the function takes any two numbers and guards
  neither. A standard deviation of -100 with 1000 samples gives the confidence 2, and a
  sample count of -50 gives a confidence of at most -1.
\<close>

theorem confidence_outside_range_counterexample: "calculateConfidence 1000 (- 100) = 2 \<and> calculateConfidence (- 50) 0 \<le> - 1"
proof -
  have "calculateConfidence 1000 (- 100) = math_round (200 - 200 * exp (- 20)) / 100"
    by (simp add: calculateConfidence_def Let_def algebra_simps)
  moreover have "\<lfloor>200 - 200 * exp (- 20 :: real) + 1 / 2\<rfloor> = 200"
  proof (rule floor_unique)
    show "of_int 200 \<le> 200 - 200 * exp (- 20 :: real) + 1 / 2"
      using exp_m20_tight by simp
    have "0 \<le> exp (- 20 :: real)" by (rule exp_ge_zero)
    then have "200 - 200 * exp (- 20 :: real) + 1 / 2 < 201" by linarith
    then show "200 - 200 * exp (- 20 :: real) + 1 / 2 < of_int 200 + 1" by simp
  qed
  ultimately have a: "calculateConfidence 1000 (- 100) = 2" by (simp add: math_round_def)
  have "(2::real) \<le> exp 1" using exp_ge_add_one_self [of "1::real"] by simp
  then have "100 - 100 * exp (1::real) + 1 / 2 < - 99" by linarith
  then have "(1 - exp (1::real)) * 100 + 1 / 2 < - 99" by (simp add: algebra_simps)
  then have "\<lfloor>(1 - exp (1::real)) * 100 + 1 / 2\<rfloor> \<le> - 100" by (simp add: floor_le_iff)
  then have "math_round ((1 - exp (1::real)) * 100) \<le> - 100"
    unfolding math_round_def by (metis of_int_le_iff of_int_minus of_int_numeral)
  then have b: "calculateConfidence (- 50) 0 \<le> - 1"
    by (simp add: calculateConfidence_def Let_def)
  from a b show ?thesis by simp
qed

text \<open>
  C8, amended: for a sample count and a standard deviation that are not negative, the
  confidence lies in [0, 1], does not decrease when the sample count grows, does not
  increase when the standard deviation grows, and the confidence of no samples is below
  that of 1000 samples without deviation, whatever the deviation of the former.
\<close>

theorem confidence_range_and_monotone:
  assumes "0 \<le> n" "0 \<le> s"
  shows "0 \<le> calculateConfidence n s \<and> calculateConfidence n s \<le> 1
     \<and> (\<forall>n'. n \<le> n' \<longrightarrow> calculateConfidence n s \<le> calculateConfidence n' s)
     \<and> (\<forall>s'. s \<le> s' \<longrightarrow> calculateConfidence n s' \<le> calculateConfidence n s)
     \<and> (\<forall>s0. calculateConfidence 0 s0 < calculateConfidence 1000 0)"
proof -
  let ?sc = "\<lambda>n::real. 1 - exp (- n / 50)"
  let ?vm = "\<lambda>s::real. max (3 / 10) (1 - s / 100)"
  have conf: "\<And>n s. calculateConfidence n s = math_round (?sc n * ?vm s * 100) / 100"
    by (simp add: calculateConfidence_def Let_def)
  have sc0: "0 \<le> ?sc n" using assms(1) by simp
  have sc1: "?sc n \<le> 1" by simp
  have vm0: "\<And>s. 0 \<le> ?vm s" by simp
  have vm1: "?vm s \<le> 1" using assms(2) by simp
  have p0: "0 \<le> ?sc n * ?vm s * 100" using sc0 vm0 [of s] by simp
  have "?sc n * ?vm s \<le> 1 * 1" using sc0 sc1 vm0 [of s] vm1 by (intro mult_mono) simp_all
  then have p1: "?sc n * ?vm s * 100 \<le> of_int 100" by simp
  have r0: "0 \<le> calculateConfidence n s"
    using math_round_ge0 [OF p0] by (simp add: conf)
  have r1: "calculateConfidence n s \<le> 1"
    using math_round_le [OF p1] by (simp add: conf)
  have mn: "calculateConfidence n s \<le> calculateConfidence n' s" if "n \<le> n'" for n'
  proof -
    have "?sc n \<le> ?sc n'" using that by simp
    then have "?sc n * ?vm s \<le> ?sc n' * ?vm s" using vm0 [of s] by (intro mult_right_mono)
    then have "?sc n * ?vm s * 100 \<le> ?sc n' * ?vm s * 100" by simp
    from math_round_mono [OF this] show ?thesis by (simp add: conf)
  qed
  have ms: "calculateConfidence n s' \<le> calculateConfidence n s" if "s \<le> s'" for s'
  proof -
    have "?vm s' \<le> ?vm s" using that by simp
    then have "?sc n * ?vm s' \<le> ?sc n * ?vm s" using sc0 by (intro mult_left_mono)
    then have "?sc n * ?vm s' * 100 \<le> ?sc n * ?vm s * 100" by simp
    from math_round_mono [OF this] show ?thesis by (simp add: conf)
  qed
  have z: "calculateConfidence 0 s0 = 0" for s0
    by (simp add: conf math_round_def)
  have "of_int 100 - 1 / 2 \<le> ?sc 1000 * ?vm 0 * 100" using exp_m20 by simp
  then have "of_int 100 \<le> math_round (?sc 1000 * ?vm 0 * 100)"
    unfolding math_round_def by (simp add: le_floor_iff)
  then have "1 \<le> calculateConfidence 1000 0" by (simp add: conf)
  with z have lt: "calculateConfidence 0 s0 < calculateConfidence 1000 0" for s0 by simp
  show ?thesis using r0 r1 mn ms lt by blast
qed

theorem confidence_range_and_monotone_witness:
  "(0::real) \<le> 50 \<and> (0::real) \<le> 10
   \<and> 0 \<le> calculateConfidence 50 10 \<and> calculateConfidence 50 10 \<le> 1
   \<and> calculateConfidence 50 10 \<le> calculateConfidence 100 10
   \<and> calculateConfidence 50 20 \<le> calculateConfidence 50 10
   \<and> calculateConfidence 0 10 < calculateConfidence 1000 0"
proof -
  have h: "(0::real) \<le> 50" "(0::real) \<le> 10" by simp_all
  note t = confidence_range_and_monotone [OF h]
  from t have a: "0 \<le> calculateConfidence 50 10 \<and> calculateConfidence 50 10 \<le> 1" by blast
  from t have "\<forall>n'. 50 \<le> n' \<longrightarrow> calculateConfidence 50 10 \<le> calculateConfidence n' 10"
    by blast
  then have b: "calculateConfidence 50 10 \<le> calculateConfidence 100 10" by simp
  from t have "\<forall>s'. 10 \<le> s' \<longrightarrow> calculateConfidence 50 s' \<le> calculateConfidence 50 10"
    by blast
  then have c: "calculateConfidence 50 20 \<le> calculateConfidence 50 10" by simp
  from t have d: "calculateConfidence 0 10 < calculateConfidence 1000 0" by blast
  from a b c d show ?thesis by simp
qed

section \<open>Crowd segments\<close>

lemmas store_defs =
  updateCrowdSegment_def readItem_def updateExisting_def newSegmentOf_def segmentIdOf_def Let_def
  emptyDb_def seededDb_def noon_def cellSegment_def tripOf_def regenOffRequest_def
  numberToString.simps base36_digit_def storedAvg_def storedCount_def segKey_def

lemma newSegmentOf_key [simp]:
  "cs_id (newSegmentOf c s t) = segmentIdOf s" "cs_geohash (newSegmentOf c s t) = seg_geohash s"
  "sampleCount (newSegmentOf c s t) = 1"
  "avgWhPerKm (aggregatedData (newSegmentOf c s t)) = whPerKm s"
  by (simp_all add: newSegmentOf_def)

lemma updateExisting_fields [simp]:
  "cs_id (updateExisting c s t e) = cs_id e" "cs_geohash (updateExisting c s t e) = cs_geohash e"
  "sampleCount (updateExisting c s t e) = sampleCount e + 1"
  "avgWhPerKm (aggregatedData (updateExisting c s t e)) =
     math_round ((avgWhPerKm (aggregatedData e)
        + (whPerKm s - avgWhPerKm (aggregatedData e)) / real (sampleCount e + 1)) * 100) / 100"
  by (simp_all add: updateExisting_def Let_def split: option.splits)

lemma ucs_missing:
  assumes "crowdContainer db (segKey s) = None"
  shows "updateCrowdSegment c s t db = ((False, False), db)"
  using assms by (simp add: updateCrowdSegment_def readItem_def segKey_def Let_def)

lemma ucs_present:
  assumes "crowdContainer db (segKey s) = Some e"
  shows "fst (updateCrowdSegment c s t db) = (False, True)"
    and "crowdContainer (snd (updateCrowdSegment c s t db)) =
           (crowdContainer db)((cs_id e, cs_geohash e) \<mapsto> updateExisting c s t e)"
  using assms by (simp_all add: updateCrowdSegment_def readItem_def segKey_def Let_def)

lemma ucs_other [simp]:
  "usersContainer (snd (updateCrowdSegment c s t db)) = usersContainer db"
  "tripsContainer (snd (updateCrowdSegment c s t db)) = tripsContainer db"
  by (simp_all add: updateCrowdSegment_def readItem_def Let_def split: option.splits)

lemma ucs_never_creates: "fst (fst (updateCrowdSegment c s t db)) = False"
  by (simp add: updateCrowdSegment_def readItem_def Let_def split: option.splits)

lemma ucs_updated:
  "snd (fst (updateCrowdSegment c s t db)) = (segKey s \<in> dom (crowdContainer db))"
  by (auto simp: updateCrowdSegment_def readItem_def segKey_def Let_def split: option.splits)

lemma wfCrowd_key: "wfCrowd db \<Longrightarrow> crowdContainer db k = Some e \<Longrightarrow> (cs_id e, cs_geohash e) = k"
  unfolding wfCrowd_def by blast

lemma ucs_crowd:
  assumes "wfCrowd db"
  shows "crowdContainer (snd (updateCrowdSegment c s t db)) =
     (case crowdContainer db (segKey s) of
        None \<Rightarrow> crowdContainer db
      | Some e \<Rightarrow> (crowdContainer db)(segKey s \<mapsto> updateExisting c s t e))"
proof (cases "crowdContainer db (segKey s)")
  case None
  then show ?thesis by (simp add: ucs_missing)
next
  case (Some e)
  with ucs_present(2) [OF Some, of c t] wfCrowd_key [OF assms Some] show ?thesis by simp
qed

lemma ucs_wf: "wfCrowd db \<Longrightarrow> wfCrowd (snd (updateCrowdSegment c s t db))"
proof -
  assume w: "wfCrowd db"
  show ?thesis
  proof (cases "crowdContainer db (segKey s)")
    case None
    with w show ?thesis by (simp add: ucs_missing)
  next
    case (Some e)
    have k: "(cs_id e, cs_geohash e) = segKey s" by (rule wfCrowd_key [OF w Some])
    have c: "crowdContainer (snd (updateCrowdSegment c s t db)) =
        (crowdContainer db)(segKey s \<mapsto> updateExisting c s t e)"
      using ucs_crowd [OF w, of c s t] Some by simp
    have "k' = (cs_id e', cs_geohash e')"
      if h: "crowdContainer (snd (updateCrowdSegment c s t db)) k' = Some e'" for k' e'
    proof (cases "k' = segKey s")
      case True
      with h c have "e' = updateExisting c s t e" by simp
      with True k show ?thesis by simp
    next
      case False
      with h c have "crowdContainer db k' = Some e'" by simp
      from wfCrowd_key [OF w this] show ?thesis by simp
    qed
    then show ?thesis unfolding wfCrowd_def by blast
  qed
qed

lemma ucs_dom: "wfCrowd db \<Longrightarrow> dom (crowdContainer (snd (updateCrowdSegment c s t db))) = dom (crowdContainer db)"
  by (auto simp: ucs_crowd split: option.splits if_splits)

lemma ucs_count:
  "wfCrowd db \<Longrightarrow> storedCount (snd (updateCrowdSegment c s t db)) k =
     map_option (\<lambda>n. n + (if segKey s = k then 1 else 0)) (storedCount db k)"
  by (auto simp: ucs_crowd storedCount_def split: option.splits)

lemma segKey_cell: "seg_geohash s = g \<Longrightarrow> startIndex s = i \<Longrightarrow> segKey s = (g @ ''-'' @ numberToString i, g)"
  by (simp add: segKey_def segmentIdOf_def)

lemma round2_close: "\<bar>math_round (y * 100) / 100 - y\<bar> \<le> 1 / 200"
  using math_round_close [of "y * 100"] by linarith

lemma mean_bound:
  fixes n a S :: real
  assumes n: "1 \<le> n" and b: "\<bar>n * a - S\<bar> \<le> (n * (n + 1) - 2) / 400"
  shows "\<bar>a - S / n\<bar> \<le> (n + 1) / 400"
proof -
  have pos: "0 < n" using n by simp
  have "a - S / n = (n * a - S) / n" using pos by (simp add: field_simps)
  then have "\<bar>a - S / n\<bar> = \<bar>n * a - S\<bar> / n" using pos by (simp add: abs_divide)
  moreover have "\<bar>n * a - S\<bar> \<le> (n + 1) / 400 * n"
  proof -
    have "(n * (n + 1) - 2) / 400 \<le> (n + 1) / 400 * n" by (simp add: algebra_simps)
    with b show ?thesis by linarith
  qed
  ultimately show ?thesis using pos by (simp add: pos_divide_le_eq)
qed


lemma step_bound:
  fixes a x S m :: real
  assumes m: "1 \<le> m" and b: "\<bar>m * a - S\<bar> \<le> (m * (m + 1) - 2) / 400"
  shows "\<bar>(m + 1) * (math_round ((a + (x - a) / (m + 1)) * 100) / 100) - (S + x)\<bar>
           \<le> ((m + 1) * ((m + 1) + 1) - 2) / 400"
proof -
  let ?b = "a + (x - a) / (m + 1)"
  let ?r = "math_round (?b * 100) / 100"
  have r: "\<bar>?r - ?b\<bar> \<le> 1 / 200" by (rule round2_close)
  have m1: "m + 1 \<noteq> 0" "0 \<le> m + 1" using m by simp_all
  have nb: "(m + 1) * ?b = m * a + x" using m1 by (simp add: field_simps)
  have eq: "(m + 1) * ?r - (S + x) = (m + 1) * (?r - ?b) + (m * a - S)"
    using nb by (simp add: algebra_simps)
  have "\<bar>(m + 1) * (?r - ?b)\<bar> = (m + 1) * \<bar>?r - ?b\<bar>" using m1 by (simp add: abs_mult)
  also have "\<dots> \<le> (m + 1) * (1 / 200)" using r m1 by (intro mult_left_mono)
  finally have d: "\<bar>(m + 1) * (?r - ?b)\<bar> \<le> (m + 1) / 200" by simp
  have "\<bar>(m + 1) * ?r - (S + x)\<bar> \<le> (m + 1) / 200 + (m * (m + 1) - 2) / 400"
    unfolding eq using d b by linarith
  also have "\<dots> = ((m + 1) * ((m + 1) + 1) - 2) / 400"
  proof -
    have "(m + 1) / 200 = (2 * (m + 1)) / 400" by simp
    then show ?thesis by (simp only: add_divide_distrib [symmetric]) (simp add: algebra_simps)
  qed
  finally show ?thesis .
qed

lemma ingest_inv:
  assumes "\<forall>(c, s, t) \<in> set xs. segKey s = k"
    and "crowdContainer db k = Some e" and "(cs_id e, cs_geohash e) = k"
    and "1 \<le> sampleCount e"
    and "\<bar>real (sampleCount e) * avgWhPerKm (aggregatedData e) - S\<bar>
           \<le> (real (sampleCount e) * (real (sampleCount e) + 1) - 2) / 400"
  shows "\<exists>e'. crowdContainer (ingest xs db) k = Some e'
     \<and> sampleCount e' = sampleCount e + length xs
     \<and> \<bar>real (sampleCount e') * avgWhPerKm (aggregatedData e') - (S + sum_list (observed xs))\<bar>
           \<le> (real (sampleCount e') * (real (sampleCount e') + 1) - 2) / 400"
  using assms
proof (induction xs arbitrary: db e S)
  case Nil
  then show ?case by (simp add: observed_def)
next
  case (Cons x xs)
  obtain c s t where x: "x = (c, s, t)" by (cases x)
  from Cons.prems(1) x have k: "segKey s = k" by simp
  let ?db = "snd (updateCrowdSegment c s t db)"
  let ?e = "updateExisting c s t e"
  have look: "crowdContainer db (segKey s) = Some e" using Cons.prems(2) k by simp
  have st: "crowdContainer ?db k = Some ?e"
    using ucs_present(2) [OF look, of c t] Cons.prems(3) by simp
  have ke: "(cs_id ?e, cs_geohash ?e) = k" using Cons.prems(3) by simp
  have n1: "1 \<le> sampleCount ?e" by simp
  have m: "(1::real) \<le> real (sampleCount e)" using Cons.prems(4) by simp
  have bd: "\<bar>real (sampleCount ?e) * avgWhPerKm (aggregatedData ?e) - (S + whPerKm s)\<bar>
           \<le> (real (sampleCount ?e) * (real (sampleCount ?e) + 1) - 2) / 400"
    using step_bound [OF m Cons.prems(5), of "whPerKm s"] by (simp add: add.commute)
  have rest: "\<forall>(c, s, t) \<in> set xs. segKey s = k" using Cons.prems(1) by simp
  from Cons.IH [OF rest st ke n1 bd]
  obtain e' where e': "crowdContainer (ingest xs ?db) k = Some e'"
    "sampleCount e' = sampleCount ?e + length xs"
    "\<bar>real (sampleCount e') * avgWhPerKm (aggregatedData e') - (S + whPerKm s + sum_list (observed xs))\<bar>
           \<le> (real (sampleCount e') * (real (sampleCount e') + 1) - 2) / 400"
    by blast
  show ?case
    using e' by (simp add: x observed_def add.assoc)
qed

text \<open>
  C1, as the claim states it, fails: every update of a stored record rounds the average
  to two decimals. A record holding one sample of 150 Wh/km, after samples of 150 and
  151, holds 150.33 where the mean of the three is 150.333..., a difference of 1/300.
  (Samples for a cell without a record are not stored at all: the read gives no
  resource, and the record is created only for an error 404.)
\<close>

theorem running_average_rounded_counterexample:
  "storedAvg (ingest twoSamples emptyDb) (''tek927-0'', ''tek927'') = None
   \<and> storedAvg seededDb (''tek927-0'', ''tek927'') = Some 150
   \<and> storedCount seededDb (''tek927-0'', ''tek927'') = Some 1
   \<and> storedAvg (ingest twoSamples seededDb) (''tek927-0'', ''tek927'') = Some (15033 / 100)
   \<and> (150 + sum_list (observed twoSamples)) / 3 = 451 / 3
   \<and> \<not> \<bar>15033 / 100 - 451 / 3\<bar> \<le> (1 / 1000000 :: real)"
  by (simp add: store_defs twoSamples_def observed_def math_round_def)

text \<open>
  C1, amended: take a stored record with a sample count n of at least 1, its average
  taken as the mean of its n earlier samples, and N samples with the record's geohash
  and start index, ingested one at a time. The record then has the sample count n + N
  and an average within (n + N + 1) / 400 of the true mean of all n + N samples: each
  update applies the incremental formula and rounds to two decimals.
\<close>

theorem running_average_within_rounding_drift:
  assumes cell: "\<forall>(c, s, t) \<in> set samples. seg_geohash s = g \<and> startIndex s = i"
    and stored: "crowdContainer db (g @ ''-'' @ numberToString i, g) = Some e"
    and ident: "cs_id e = g @ ''-'' @ numberToString i" "cs_geohash e = g"
    and one: "1 \<le> sampleCount e"
  shows "\<exists>e'. crowdContainer (ingest samples db) (g @ ''-'' @ numberToString i, g) = Some e'
     \<and> sampleCount e' = sampleCount e + length samples
     \<and> \<bar>avgWhPerKm (aggregatedData e')
          - (real (sampleCount e) * avgWhPerKm (aggregatedData e)
               + sum_list (observed samples)) / real (sampleCount e')\<bar>
         \<le> (real (sampleCount e') + 1) / 400"
proof -
  let ?k = "(g @ ''-'' @ numberToString i, g)"
  let ?S = "real (sampleCount e) * avgWhPerKm (aggregatedData e)"
  have keys: "\<forall>(c, s, t) \<in> set samples. segKey s = ?k"
    using cell by (auto simp: segKey_cell)
  have ke: "(cs_id e, cs_geohash e) = ?k" using ident by simp
  have m: "(1::real) \<le> real (sampleCount e)" using one by simp
  have "0 \<le> real (sampleCount e) * (real (sampleCount e) + 1) - 2"
  proof -
    have "1 * (1 + 1) \<le> real (sampleCount e) * (real (sampleCount e) + 1)"
      using m by (intro mult_mono) simp_all
    then show ?thesis by simp
  qed
  then have b0: "\<bar>real (sampleCount e) * avgWhPerKm (aggregatedData e) - ?S\<bar>
         \<le> (real (sampleCount e) * (real (sampleCount e) + 1) - 2) / 400" by simp
  from ingest_inv [OF keys stored ke one b0]
  obtain e' where e': "crowdContainer (ingest samples db) ?k = Some e'"
    "sampleCount e' = sampleCount e + length samples"
    "\<bar>real (sampleCount e') * avgWhPerKm (aggregatedData e') - (?S + sum_list (observed samples))\<bar>
         \<le> (real (sampleCount e') * (real (sampleCount e') + 1) - 2) / 400"
    by blast
  have n: "(1::real) \<le> real (sampleCount e')" using e'(2) one by simp
  have "\<bar>avgWhPerKm (aggregatedData e') - (?S + sum_list (observed samples)) / real (sampleCount e')\<bar>
      \<le> (real (sampleCount e') + 1) / 400"
    by (rule mean_bound [OF n e'(3)])
  with e'(1,2) show ?thesis by blast
qed

theorem running_average_within_rounding_drift_witness:
  "list_all (\<lambda>(c, s, t). seg_geohash s = ''tek927'' \<and> startIndex s = 0) twoSamples
   \<and> storedCount seededDb (''tek927'' @ ''-'' @ numberToString 0, ''tek927'') = Some 1
   \<and> storedAvg seededDb (''tek927'' @ ''-'' @ numberToString 0, ''tek927'') = Some 150
   \<and> (\<exists>e'. crowdContainer (ingest twoSamples seededDb)
               (''tek927'' @ ''-'' @ numberToString 0, ''tek927'') = Some e'
          \<and> sampleCount e' = 3
          \<and> \<bar>avgWhPerKm (aggregatedData e') - 451 / 3\<bar> \<le> 4 / 400)"
proof -
  let ?k = "(''tek927'' @ ''-'' @ numberToString 0, ''tek927'')"
  let ?e = "newSegmentOf noon (cellSegment 0 150) (tripOf [])"
  have cell: "\<forall>(c, s, t) \<in> set twoSamples. seg_geohash s = ''tek927'' \<and> startIndex s = 0"
    by (simp add: twoSamples_def cellSegment_def)
  have l: "list_all (\<lambda>(c, s, t). seg_geohash s = ''tek927'' \<and> startIndex s = 0) twoSamples"
    by (simp add: twoSamples_def cellSegment_def)
  have s: "crowdContainer seededDb ?k = Some ?e"
    by (simp add: seededDb_def emptyDb_def numberToString.simps base36_digit_def)
  have f: "cs_id ?e = ''tek927'' @ ''-'' @ numberToString 0" "cs_geohash ?e = ''tek927''"
    "1 \<le> sampleCount ?e"
    by (simp_all add: segmentIdOf_def cellSegment_def)
  have f': "sampleCount ?e = 1" "avgWhPerKm (aggregatedData ?e) = 150"
    by (simp_all add: cellSegment_def)
  have v: "length twoSamples = 2" "sum_list (observed twoSamples) = 301"
    by (simp_all add: twoSamples_def observed_def cellSegment_def)
  from running_average_within_rounding_drift [OF cell s f]
  obtain e' where "crowdContainer (ingest twoSamples seededDb) ?k = Some e'"
      "sampleCount e' = sampleCount ?e + length twoSamples"
      "\<bar>avgWhPerKm (aggregatedData e')
           - (real (sampleCount ?e) * avgWhPerKm (aggregatedData ?e)
                + sum_list (observed twoSamples)) / real (sampleCount e')\<bar>
          \<le> (real (sampleCount e') + 1) / 400"
    by blast
  then have e': "crowdContainer (ingest twoSamples seededDb) ?k = Some e'"
      "sampleCount e' = 3"
      "\<bar>avgWhPerKm (aggregatedData e') - 451 / 3\<bar> \<le> 4 / 400"
    using f' v by auto
  have c: "storedCount seededDb ?k = Some 1" "storedAvg seededDb ?k = Some 150"
    using s f' by (simp_all add: storedCount_def storedAvg_def)
  from l c e' show ?thesis by blast
qed

text \<open>
  C6, as the claim states it, fails: a record is looked up by geohash and start index,
  not by the cell. With a record stored for the cell \<open>tek927\<close> and the start index 0,
  the ingest of a segment of the same geohash with the start index 1 does not update it:
  its sample count stays 1. (And the first ingest of a cell creates no record, so that a
  second has none to update: two segments of the cell ingested into an empty database
  leave it empty.)
\<close>

theorem same_cell_not_updated_counterexample:
  "seg_geohash (cellSegment 1 150) = ''tek927''
   \<and> storedCount seededDb (''tek927-0'', ''tek927'') = Some 1
   \<and> fst (updateCrowdSegment noon (cellSegment 1 150) (tripOf []) seededDb) = (False, False)
   \<and> storedCount (snd (updateCrowdSegment noon (cellSegment 1 150) (tripOf []) seededDb))
          (''tek927-0'', ''tek927'') = Some 1
   \<and> seg_geohash (cellSegment 0 151) = seg_geohash (cellSegment 0 150)
   \<and> fst (updateCrowdSegment noon (cellSegment 0 151) (tripOf [])
          (snd (updateCrowdSegment noon (cellSegment 0 150) (tripOf []) emptyDb))) = (False, False)
   \<and> storedCount (snd (updateCrowdSegment noon (cellSegment 0 151) (tripOf [])
          (snd (updateCrowdSegment noon (cellSegment 0 150) (tripOf []) emptyDb))))
          (''tek927-0'', ''tek927'') = None"
  by (simp add: store_defs)

text \<open>
  C6, amended: at most one record is stored per pair of geohash and start index, under
  its id (the geohash followed by the start index) and its geohash. For every two trip
  segments with the same geohash and the same start index whose record is stored, both
  ingests look that record up and update it, raising its sample count by two; no record
  is added, and every other record stays as it is.
\<close>

theorem ingest_updates_stored_record_only:
  assumes g: "seg_geohash s2 = seg_geohash s1" and i: "startIndex s2 = startIndex s1"
    and stored: "crowdContainer db (segKey s1) = Some e"
    and ident: "(cs_id e, cs_geohash e) = segKey s1"
  shows "fst (updateCrowdSegment c1 s1 t1 db) = (False, True)
     \<and> fst (updateCrowdSegment c2 s2 t2 (snd (updateCrowdSegment c1 s1 t1 db))) = (False, True)
     \<and> storedCount (snd (updateCrowdSegment c2 s2 t2 (snd (updateCrowdSegment c1 s1 t1 db))))
          (segKey s1) = Some (sampleCount e + 2)
     \<and> dom (crowdContainer (snd (updateCrowdSegment c2 s2 t2 (snd (updateCrowdSegment c1 s1 t1 db)))))
          = dom (crowdContainer db)
     \<and> (\<forall>k. k \<noteq> segKey s1 \<longrightarrow>
           crowdContainer (snd (updateCrowdSegment c2 s2 t2 (snd (updateCrowdSegment c1 s1 t1 db)))) k
             = crowdContainer db k)"
proof -
  let ?db1 = "snd (updateCrowdSegment c1 s1 t1 db)"
  let ?e1 = "updateExisting c1 s1 t1 e"
  let ?db2 = "snd (updateCrowdSegment c2 s2 t2 ?db1)"
  have k: "segKey s2 = segKey s1" using g i by (simp add: segKey_def segmentIdOf_def)
  note p1 = ucs_present [OF stored, of c1 t1]
  have c1: "crowdContainer ?db1 = (crowdContainer db)(segKey s1 \<mapsto> ?e1)"
    using p1(2) ident by simp
  have look: "crowdContainer ?db1 (segKey s2) = Some ?e1" using c1 k by simp
  note p2 = ucs_present [OF look, of c2 t2]
  have c2: "crowdContainer ?db2 = (crowdContainer db)(segKey s1 \<mapsto> updateExisting c2 s2 t2 ?e1)"
    using p2(2) ident c1 by simp
  have n: "storedCount ?db2 (segKey s1) = Some (sampleCount e + 2)"
    by (simp add: storedCount_def c2)
  have d: "dom (crowdContainer ?db2) = dom (crowdContainer db)"
    unfolding c2 using stored by auto
  have o: "\<forall>k. k \<noteq> segKey s1 \<longrightarrow> crowdContainer ?db2 k = crowdContainer db k"
    by (simp add: c2)
  from p1(1) p2(1) n d o show ?thesis by blast
qed

theorem ingest_updates_stored_record_only_witness:
  "seg_geohash (cellSegment 0 151) = seg_geohash (cellSegment 0 150)
   \<and> startIndex (cellSegment 0 151) = startIndex (cellSegment 0 150)
   \<and> storedCount seededDb (segKey (cellSegment 0 150)) = Some 1
   \<and> fst (updateCrowdSegment noon (cellSegment 0 151) (tripOf [])
          (snd (updateCrowdSegment noon (cellSegment 0 150) (tripOf []) seededDb))) = (False, True)
   \<and> storedCount (snd (updateCrowdSegment noon (cellSegment 0 151) (tripOf [])
          (snd (updateCrowdSegment noon (cellSegment 0 150) (tripOf []) seededDb))))
          (segKey (cellSegment 0 150)) = Some 3"
proof -
  have h: "seg_geohash (cellSegment 0 151) = seg_geohash (cellSegment 0 150)"
    "startIndex (cellSegment 0 151) = startIndex (cellSegment 0 150)"
    by (simp_all add: cellSegment_def)
  have k: "segKey (cellSegment 0 150) = (''tek927-0'', ''tek927'')"
    by (simp add: store_defs)
  have s1: "crowdContainer seededDb (segKey (cellSegment 0 150))
             = Some (newSegmentOf noon (cellSegment 0 150) (tripOf []))"
    by (simp add: k seededDb_def emptyDb_def)
  have s2: "(cs_id (newSegmentOf noon (cellSegment 0 150) (tripOf [])),
      cs_geohash (newSegmentOf noon (cellSegment 0 150) (tripOf []))) = segKey (cellSegment 0 150)"
    by (simp add: segKey_def)
  have c: "storedCount seededDb (segKey (cellSegment 0 150)) = Some 1"
    by (simp add: storedCount_def s1)
  from ingest_updates_stored_record_only [OF h s1 s2, of noon "tripOf []" noon "tripOf []"]
  have b: "fst (updateCrowdSegment noon (cellSegment 0 151) (tripOf [])
          (snd (updateCrowdSegment noon (cellSegment 0 150) (tripOf []) seededDb))) = (False, True)
   \<and> storedCount (snd (updateCrowdSegment noon (cellSegment 0 151) (tripOf [])
          (snd (updateCrowdSegment noon (cellSegment 0 150) (tripOf []) seededDb))))
          (segKey (cellSegment 0 150)) = Some (1 + 2)"
    by simp
  from h c b show ?thesis by simp
qed

section \<open>Trip synchronisation\<close>

lemma saveTrip_fields [simp]:
  "usersContainer (snd (saveTrip c t db)) = usersContainer db"
  "crowdContainer (snd (saveTrip c t db)) = crowdContainer db"
  "tripsContainer (snd (saveTrip c t db)) =
     (tripsContainer db)((trip_id t, trip_userId t) \<mapsto> t\<lparr>createdAt := nowISO c, synced := True\<rparr>)"
  by (simp_all add: saveTrip_def Let_def)

lemma getOrCreateUser_fields [simp]:
  "tripsContainer (snd (getOrCreateUser c uid db)) = tripsContainer db"
  "crowdContainer (snd (getOrCreateUser c uid db)) = crowdContainer db"
  "shareAnonymousData (preferences (fst (getOrCreateUser c uid db))) = sharesOf uid db"
  "sharesOf uid (snd (getOrCreateUser c uid db)) = sharesOf uid db"
  by (simp_all add: getOrCreateUser_def readItem_def sharesOf_def Let_def split: option.splits)

lemma sharesOf_cong: "usersContainer db' = usersContainer db \<Longrightarrow> sharesOf uid db' = sharesOf uid db"
  by (simp add: sharesOf_def)

lemma crowd_cong:
  assumes "crowdContainer db' = crowdContainer db"
  shows "wfCrowd db' = wfCrowd db" "storedCount db' k = storedCount db k"
  using assms by (simp_all add: wfCrowd_def storedCount_def)

lemma map_option_add:
  "map_option (\<lambda>n. n + b) (map_option (\<lambda>n. n + a) x) = map_option (\<lambda>n::nat. n + (a + b)) x"
  by (cases x) simp_all

lemma syncSegments_effect:
  "wfCrowd db \<Longrightarrow>
     fst (syncSegments c t segs ((nc, nu), db))
       = (nc, nu + length (filter (\<lambda>s. segKey s \<in> dom (crowdContainer db)) segs))
     \<and> wfCrowd (snd (syncSegments c t segs ((nc, nu), db)))
     \<and> dom (crowdContainer (snd (syncSegments c t segs ((nc, nu), db)))) = dom (crowdContainer db)
     \<and> (\<forall>k. storedCount (snd (syncSegments c t segs ((nc, nu), db))) k
            = map_option (\<lambda>n. n + count_list (map segKey segs) k) (storedCount db k))
     \<and> usersContainer (snd (syncSegments c t segs ((nc, nu), db))) = usersContainer db
     \<and> tripsContainer (snd (syncSegments c t segs ((nc, nu), db))) = tripsContainer db"
proof (induction segs arbitrary: nc nu db)
  case Nil
  then show ?case by (simp add: option.map_ident)
next
  case (Cons s segs)
  let ?u = "updateCrowdSegment c s t db"
  let ?db = "snd ?u"
  let ?nu = "if segKey s \<in> dom (crowdContainer db) then nu + 1 else nu"
  have unf: "syncSegments c t (s # segs) ((nc, nu), db) = syncSegments c t segs ((nc, ?nu), ?db)"
    using ucs_never_creates [of c s t db] ucs_updated [of c s t db]
    by (simp add: case_prod_beta)
  have w: "wfCrowd ?db" by (rule ucs_wf [OF Cons.prems])
  have d: "dom (crowdContainer ?db) = dom (crowdContainer db)" by (rule ucs_dom [OF Cons.prems])
  note ih = Cons.IH [OF w, of nc ?nu]
  have cnt: "storedCount (snd (syncSegments c t segs ((nc, ?nu), ?db))) k
       = map_option (\<lambda>n. n + count_list (map segKey (s # segs)) k) (storedCount db k)" for k
  proof -
    have "storedCount (snd (syncSegments c t segs ((nc, ?nu), ?db))) k
       = map_option (\<lambda>n. n + count_list (map segKey segs) k) (storedCount ?db k)"
      using ih by blast
    also have "\<dots> = map_option (\<lambda>n. n + count_list (map segKey segs) k)
        (map_option (\<lambda>n. n + (if segKey s = k then 1 else 0)) (storedCount db k))"
      by (simp only: ucs_count [OF Cons.prems])
    also have "\<dots> = map_option (\<lambda>n. n + count_list (map segKey (s # segs)) k) (storedCount db k)"
      by (simp add: map_option_add add.commute)
    finally show ?thesis .
  qed
  have f: "fst (syncSegments c t segs ((nc, ?nu), ?db))
       = (nc, nu + length (filter (\<lambda>s. segKey s \<in> dom (crowdContainer db)) (s # segs)))"
    using ih d by simp
  have o: "wfCrowd (snd (syncSegments c t segs ((nc, ?nu), ?db)))"
    "dom (crowdContainer (snd (syncSegments c t segs ((nc, ?nu), ?db)))) = dom (crowdContainer db)"
    "usersContainer (snd (syncSegments c t segs ((nc, ?nu), ?db))) = usersContainer db"
    "tripsContainer (snd (syncSegments c t segs ((nc, ?nu), ?db))) = tripsContainer db"
    using ih d by simp_all
  show ?case unfolding unf using f o cnt by blast
qed

lemma syncTripsLoop_effect:
  "wfCrowd db \<Longrightarrow> syncTripsLoop c uid ts (sc, (nc, nu), db) = (sc', (nc', nu'), db') \<Longrightarrow>
     sc' = sc + length ts \<and> nc' = nc
     \<and> nu' = nu + (if sharesOf uid db
                   then length (filter (\<lambda>s. segKey s \<in> dom (crowdContainer db)) (allSegments ts))
                   else 0)
     \<and> (\<forall>k. storedCount db' k
            = map_option (\<lambda>n. n + (if sharesOf uid db
                                    then count_list (map segKey (allSegments ts)) k else 0))
                (storedCount db k))
     \<and> (\<forall>t \<in> set ts. map_option synced (tripsContainer db' (trip_id t, uid)) = Some True)
     \<and> (\<forall>k. map_option synced (tripsContainer db k) = Some True
            \<longrightarrow> map_option synced (tripsContainer db' k) = Some True)"
proof (induction ts arbitrary: sc nc nu db)
  case Nil
  then show ?case by (simp add: allSegments_def option.map_ident)
next
  case (Cons t ts)
  let ?db1 = "snd (saveTrip c (t\<lparr>trip_userId := uid\<rparr>) db)"
  let ?user = "fst (getOrCreateUser c uid ?db1)"
  let ?db2 = "snd (getOrCreateUser c uid ?db1)"
  let ?segs = "case segments t of Some segs \<Rightarrow> segs | None \<Rightarrow> []"
  let ?sh = "sharesOf uid db"
  let ?P = "\<lambda>s. segKey s \<in> dom (crowdContainer db)"
  let ?acc = "case segments t of
               Some segs \<Rightarrow>
                 if shareAnonymousData (preferences ?user)
                 then syncSegments c t segs ((nc, nu), ?db2)
                 else ((nc, nu), ?db2)
             | None \<Rightarrow> ((nc, nu), ?db2)"
  obtain nc1 nu1 db3 where acc: "?acc = ((nc1, nu1), db3)" by (metis prod.collapse)
  have sh1: "sharesOf uid ?db1 = ?sh" by (rule sharesOf_cong) simp
  have us: "shareAnonymousData (preferences ?user) = ?sh" using sh1 by simp
  have sh2: "sharesOf uid ?db2 = ?sh" using sh1 by simp
  have c2: "crowdContainer ?db2 = crowdContainer db" by simp
  have w2: "wfCrowd ?db2" using crowd_cong(1) [OF c2] Cons.prems(1) by simp
  have t2: "tripsContainer ?db2 =
      (tripsContainer db)((trip_id t, uid) \<mapsto> t\<lparr>trip_userId := uid, createdAt := nowISO c, synced := True\<rparr>)"
    by simp
  have step: "nc1 = nc \<and> nu1 = nu + (if ?sh then length (filter ?P ?segs) else 0)
      \<and> wfCrowd db3 \<and> dom (crowdContainer db3) = dom (crowdContainer db)
      \<and> (\<forall>k. storedCount db3 k
            = map_option (\<lambda>n. n + (if ?sh then count_list (map segKey ?segs) k else 0)) (storedCount db k))
      \<and> usersContainer db3 = usersContainer ?db2 \<and> tripsContainer db3 = tripsContainer ?db2"
  proof (cases "segments t")
    case None
    with acc have e: "nc1 = nc" "nu1 = nu" "db3 = ?db2" by simp_all
    show ?thesis
      unfolding e using None w2 crowd_cong(2) [OF c2] by (simp add: option.map_ident)
  next
    case (Some segs)
    show ?thesis
    proof (cases ?sh)
      case True
      with acc Some us have e: "syncSegments c t segs ((nc, nu), ?db2) = ((nc1, nu1), db3)" by simp
      from syncSegments_effect [OF w2, of c t segs nc nu] e c2 crowd_cong(2) [OF c2] Some True
      show ?thesis by simp
    next
      case False
      with acc Some us have e: "nc1 = nc" "nu1 = nu" "db3 = ?db2" by simp_all
      show ?thesis
        unfolding e using False w2 crowd_cong(2) [OF c2] by (simp add: option.map_ident)
    qed
  qed
  have stC: "nc1 = nc" using step by blast
  have stU: "nu1 = nu + (if ?sh then length (filter ?P ?segs) else 0)" using step by blast
  have w3: "wfCrowd db3" using step by blast
  have stD: "dom (crowdContainer db3) = dom (crowdContainer db)" using step by blast
  have stK: "storedCount db3 k
      = map_option (\<lambda>n. n + (if ?sh then count_list (map segKey ?segs) k else 0)) (storedCount db k)"
    for k using step by blast
  have stO: "usersContainer db3 = usersContainer ?db2" "tripsContainer db3 = tripsContainer ?db2"
    using step by blast+
  have sh3: "sharesOf uid db3 = ?sh"
    using stO(1) sh2 sharesOf_cong [of db3 ?db2 uid] by simp
  have loop: "syncTripsLoop c uid ts (sc + 1, (nc1, nu1), db3) = (sc', (nc', nu'), db')"
    using Cons.prems(2) acc by (simp add: Let_def case_prod_beta)
  note ih = Cons.IH [OF w3 loop, unfolded sh3 stD]
  have ihS: "sc' = sc + 1 + length ts" using ih by blast
  have ihC: "nc' = nc1" using ih by blast
  have ihU: "nu' = nu1 + (if ?sh then length (filter ?P (allSegments ts)) else 0)"
    using ih by blast
  have ihK: "storedCount db' k
      = map_option (\<lambda>n. n + (if ?sh then count_list (map segKey (allSegments ts)) k else 0))
          (storedCount db3 k)" for k using ih by blast
  have ihT: "\<forall>t \<in> set ts. map_option synced (tripsContainer db' (trip_id t, uid)) = Some True"
    using ih by blast
  have ihP: "map_option synced (tripsContainer db' k) = Some True"
    if "map_option synced (tripsContainer db3 k) = Some True" for k
    using ih that by blast
  have as: "allSegments (t # ts) = ?segs @ allSegments ts" by (simp add: allSegments_def)
  have S: "sc' = sc + length (t # ts)" using ihS by simp
  have C: "nc' = nc" using ihC stC by simp
  have U: "nu' = nu + (if ?sh then length (filter ?P (allSegments (t # ts))) else 0)"
    using ihU stU by (simp add: as)
  have K: "\<forall>k. storedCount db' k
            = map_option (\<lambda>n. n + (if ?sh then count_list (map segKey (allSegments (t # ts))) k else 0))
                (storedCount db k)"
  proof
    fix k
    show "storedCount db' k
            = map_option (\<lambda>n. n + (if ?sh then count_list (map segKey (allSegments (t # ts))) k else 0))
                (storedCount db k)"
      unfolding ihK [of k] stK [of k] by (simp add: map_option_add as)
  qed
  have t3: "map_option synced (tripsContainer db3 (trip_id t, uid)) = Some True"
    using stO(2) t2 by simp
  have keep: "map_option synced (tripsContainer db3 k) = Some True"
    if "map_option synced (tripsContainer db k) = Some True" for k
    using that stO(2) t2 by simp
  have T: "\<forall>t' \<in> set (t # ts). map_option synced (tripsContainer db' (trip_id t', uid)) = Some True"
    using ihT ihP [OF t3] by simp
  have Kp: "\<forall>k. map_option synced (tripsContainer db k) = Some True
            \<longrightarrow> map_option synced (tripsContainer db' k) = Some True"
    using ihP keep by blast
  from S C U K T Kp show ?case by blast
qed

text \<open>
  C2, as the claim states it, fails: \<open>syncTrips\<close> neither looks for a stored trip nor
  reads the \<open>synced\<close> flag that \<open>saveTrip\<close> writes. With a record of sample count 1 stored
  for the segment of a trip, a first submission stores the trip as synced and raises the
  sample count to 2; the second submission of the same request returns syncedCount 1 and
  raises the sample count to 3.
\<close>

theorem resubmitted_trip_counted_again_counterexample:
  "storedCount seededDb (''tek927-0'', ''tek927'') = Some 1
   \<and> storedCount (snd (syncTrips noon oneTripRequest seededDb)) (''tek927-0'', ''tek927'') = Some 2
   \<and> map_option synced (tripsContainer (snd (syncTrips noon oneTripRequest seededDb)) (''trip-1'', ''u1'')) = Some True
   \<and> syncedCount (fst (syncTrips noon oneTripRequest (snd (syncTrips noon oneTripRequest seededDb)))) = 1
   \<and> storedCount (snd (syncTrips noon oneTripRequest (snd (syncTrips noon oneTripRequest seededDb)))) (''tek927-0'', ''tek927'') = Some 3"
  by (simp add: store_defs syncTrips_def oneTripRequest_def saveTrip_def getOrCreateUser_def)

text \<open>
  C2, amended: every submission is processed in full. \<open>syncedCount\<close> is the number of
  trips in the batch, submitted before or not, and every trip of the batch is then stored
  under its id and the request's user id, marked synced. In a crowd container that holds
  every record under the record's own id and geohash, each stored record's sample count
  rises, on every submission, by the number of segments in the batch with its geohash
  and start index when the user shares data, and stays as it is otherwise.
\<close>

theorem sync_applies_every_submission:
  assumes "wfCrowd db"
  shows "syncedCount (fst (syncTrips c req db)) = length (trips req)
   \<and> (\<forall>k e. crowdContainer db k = Some e \<longrightarrow>
          storedCount (snd (syncTrips c req db)) k
            = Some (sampleCount e
                     + (if sharesOf (req_userId req) db
                        then count_list (map segKey (allSegments (trips req))) k else 0)))
   \<and> (\<forall>t \<in> set (trips req).
          map_option synced (tripsContainer (snd (syncTrips c req db)) (trip_id t, req_userId req))
            = Some True)"
proof -
  obtain sc nc nu db' where l:
    "syncTripsLoop c (req_userId req) (trips req) (0, (0, 0), db) = (sc, (nc, nu), db')"
    by (metis prod.collapse)
  note e = syncTripsLoop_effect [OF assms l]
  have r: "syncTrips c req db
      = (\<lparr>syncedCount = sc, newSegmentsCreated = nc, crowdUpdatesApplied = nu,
           syncTimestamp = nowISO c\<rparr>, db')"
    using l by (simp add: syncTrips_def)
  have S: "sc = length (trips req)" using e by simp
  have K: "storedCount db' k
      = Some (sampleCount x
               + (if sharesOf (req_userId req) db
                  then count_list (map segKey (allSegments (trips req))) k else 0))"
    if "crowdContainer db k = Some x" for k x
  proof -
    have "storedCount db' k
        = map_option (\<lambda>n. n + (if sharesOf (req_userId req) db
                                then count_list (map segKey (allSegments (trips req))) k else 0))
            (storedCount db k)"
      using e by blast
    then show ?thesis using that by (simp add: storedCount_def)
  qed
  have T: "\<forall>t \<in> set (trips req).
      map_option synced (tripsContainer db' (trip_id t, req_userId req)) = Some True"
    using e by blast
  from S K T show ?thesis unfolding r by simp
qed

theorem sync_applies_every_submission_witness:
  "wfCrowd seededDb
   \<and> sharesOf (req_userId oneTripRequest) seededDb
   \<and> syncedCount (fst (syncTrips noon oneTripRequest seededDb)) = 1
   \<and> storedCount seededDb (''tek927-0'', ''tek927'') = Some 1
   \<and> storedCount (snd (syncTrips noon oneTripRequest seededDb)) (''tek927-0'', ''tek927'') = Some 2
   \<and> map_option synced (tripsContainer (snd (syncTrips noon oneTripRequest seededDb)) (''trip-1'', ''u1''))
       = Some True"
proof -
  let ?e = "newSegmentOf noon (cellSegment 0 150) (tripOf [])"
  have w: "wfCrowd seededDb"
    by (simp add: wfCrowd_def seededDb_def emptyDb_def segmentIdOf_def cellSegment_def
        numberToString.simps base36_digit_def)
  have sh: "sharesOf (req_userId oneTripRequest) seededDb"
    by (simp add: sharesOf_def seededDb_def emptyDb_def)
  have a: "allSegments (trips oneTripRequest) = [cellSegment 0 150]"
    by (simp add: allSegments_def oneTripRequest_def tripOf_def)
  have k: "segKey (cellSegment 0 150) = (''tek927-0'', ''tek927'')" by (simp add: store_defs)
  have s: "crowdContainer seededDb (''tek927-0'', ''tek927'') = Some ?e"
    by (simp add: seededDb_def emptyDb_def)
  have c: "storedCount seededDb (''tek927-0'', ''tek927'') = Some 1"
    by (simp add: storedCount_def s)
  have r: "req_userId oneTripRequest = ''u1''" "trips oneTripRequest = [tripOf [cellSegment 0 150]]"
    "trip_id (tripOf [cellSegment 0 150]) = ''trip-1''"
    by (simp_all add: oneTripRequest_def tripOf_def)
  note t = sync_applies_every_submission [OF w, of noon oneTripRequest]
  from t have "\<forall>k e. crowdContainer seededDb k = Some e \<longrightarrow>
          storedCount (snd (syncTrips noon oneTripRequest seededDb)) k
            = Some (sampleCount e
                     + (if sharesOf (req_userId oneTripRequest) seededDb
                        then count_list (map segKey (allSegments (trips oneTripRequest))) k else 0))"
    by blast
  with s have "storedCount (snd (syncTrips noon oneTripRequest seededDb)) (''tek927-0'', ''tek927'')
      = Some (sampleCount ?e
               + (if sharesOf (req_userId oneTripRequest) seededDb
                  then count_list (map segKey (allSegments (trips oneTripRequest)))
                         (''tek927-0'', ''tek927'') else 0))"
    by blast
  then have n: "storedCount (snd (syncTrips noon oneTripRequest seededDb)) (''tek927-0'', ''tek927'')
      = Some 2"
    using sh a k by simp
  from t r have m: "syncedCount (fst (syncTrips noon oneTripRequest seededDb)) = 1
      \<and> map_option synced (tripsContainer (snd (syncTrips noon oneTripRequest seededDb)) (''trip-1'', ''u1''))
       = Some True" by simp
  from w sh c n m show ?thesis by simp
qed

end
